theory Spec2Isabelle
  imports Main
begin

section \<open>JavaScript values and objects\<close>

text \<open>
  The service is TypeScript running on a JavaScript engine. Three pieces of the language
  decide what the handlers do and are modelled here as the language defines them: the
  truthiness of strings (\<open>!s\<close>, \<open>s || d\<close>), property lookup on a plain object (own
  properties first, then the members every object literal inherits from
  \<open>Object.prototype\<close>), and the numbers that \<open>parseInt\<close> and \<open>Array.prototype.slice\<close>
  work with.
\<close>

text \<open>A string is represented by its UTF-8 bytes. A value read from a JSON body or a
  query string is absent (\<open>undefined\<close>) or a string; both \<open>undefined\<close> and the empty
  string are falsy.\<close>

definition truthy :: "string option \<Rightarrow> bool" where
  "truthy s = (case s of None \<Rightarrow> False | Some t \<Rightarrow> t \<noteq> [])"

text \<open>\<open>s || d\<close> on an optional string.\<close>

definition or_default :: "string option \<Rightarrow> string \<Rightarrow> string" where
  "or_default s d = (case s of None \<Rightarrow> d | Some t \<Rightarrow> if t = [] then d else t)"

text \<open>The property names every plain object inherits from \<open>Object.prototype\<close>. Each of
  them holds a function, except \<open>__proto__\<close>, which reads as the prototype object itself;
  all of them are truthy.\<close>

definition Object_prototype_keys :: "string list" where
  "Object_prototype_keys =
    [''constructor'', ''__defineGetter__'', ''__defineSetter__'', ''hasOwnProperty'',
     ''__lookupGetter__'', ''__lookupSetter__'', ''isPrototypeOf'', ''propertyIsEnumerable'',
     ''toString'', ''valueOf'', ''__proto__'', ''toLocaleString'']"

text \<open>The result of \<open>obj[key]\<close> on an object literal: \<open>Absent\<close> is \<open>undefined\<close>
  (and \<open>null\<close> after \<open>|| null\<close>: both are falsy), \<open>Own v\<close> is an own property,
  \<open>Inherited k\<close> is the member \<open>k\<close> of \<open>Object.prototype\<close>.\<close>

datatype 'a property = Absent | Own 'a | Inherited string

definition js_get :: "(string \<rightharpoonup> 'a) \<Rightarrow> string \<Rightarrow> 'a property" where
  "js_get own k =
     (case own k of
        Some v \<Rightarrow> Own v
      | None \<Rightarrow> if k \<in> set Object_prototype_keys then Inherited k else Absent)"

text \<open>\<open>x.f\<close> for a field \<open>f\<close> of the looked-up object. The members of \<open>Object.prototype\<close>
  have none of the fields read by this program, so the read gives \<open>undefined\<close>. The
  program reads a field only after it has checked that the object is not \<open>null\<close>.\<close>

definition field :: "('a \<Rightarrow> 'b) \<Rightarrow> 'a property \<Rightarrow> 'b option" where
  "field f p = (case p of Own x \<Rightarrow> Some (f x) | Inherited k \<Rightarrow> None | Absent \<Rightarrow> None)"

section \<open>The statute registry (statutes.ts)\<close>

datatype severity = LOW | MEDIUM | HIGH | CRITICAL

fun severity_text :: "severity \<Rightarrow> string" where
  "severity_text LOW = ''LOW''"
| "severity_text MEDIUM = ''MEDIUM''"
| "severity_text HIGH = ''HIGH''"
| "severity_text CRITICAL = ''CRITICAL''"

record StatuteInfo =
  organization :: string
  article :: string
  description :: string
  severity :: severity
  jurisdiction :: "string list"

text \<open>The object literal \<open>INTERNATIONAL_STATUTES\<close>, as its own properties in definition
  order.\<close>

definition INTERNATIONAL_STATUTES :: "(string \<times> StatuteInfo) list" where
  "INTERNATIONAL_STATUTES = [
  (''Rome Statute Article 6'',
    \<lparr>organization = ''ICC'', article = ''Rome Statute Article 6'',
     description = ''Genocide: Acts committed with intent to destroy, in whole or in part, a national, ethnical, racial or religious group, such as killing, causing serious bodily or mental harm, inflicting conditions of life calculated to destroy, imposing measures to prevent births, or forcibly transferring children.'',
     severity = CRITICAL, jurisdiction = [''INTERNATIONAL'', ''ICC'']\<rparr>),
  (''Rome Statute Article 7'',
    \<lparr>organization = ''ICC'', article = ''Rome Statute Article 7'',
     description = ''Crimes against humanity: Widespread or systematic attacks against civilians, including murder, extermination, enslavement, deportation, imprisonment, torture, rape, persecution, enforced disappearance, apartheid, and other inhumane acts.'',
     severity = CRITICAL, jurisdiction = [''INTERNATIONAL'', ''ICC'']\<rparr>),
  (''Rome Statute Article 8'',
    \<lparr>organization = ''ICC'', article = ''Rome Statute Article 8'',
     description = ''War crimes: Grave breaches of the Geneva Conventions, including willful killing, torture, inhuman treatment, unlawful deportation, taking hostages, attacking civilians, using prohibited weapons, starvation of civilians, and conscripting children under 15 into armed forces.'',
     severity = CRITICAL, jurisdiction = [''INTERNATIONAL'', ''ICC'']\<rparr>),
  (''Rome Statute Article 8 bis'',
    \<lparr>organization = ''ICC'', article = ''Rome Statute Article 8 bis'',
     description = ''Crime of aggression: Planning, preparation, initiation or execution of an act of aggression by a state leader that constitutes a manifest violation of the UN Charter.'',
     severity = CRITICAL, jurisdiction = [''INTERNATIONAL'', ''ICC'']\<rparr>),
  (''IAEA Statute Article XII.C'',
    \<lparr>organization = ''IAEA'', article = ''IAEA Statute Article XII.C'',
     description = ''Non-compliance with nuclear safeguards: Failure to declare nuclear material, diversion of nuclear material for non-peaceful purposes, or refusal to allow inspections.'',
     severity = CRITICAL, jurisdiction = [''INTERNATIONAL'', ''IAEA'']\<rparr>),
  (''INFCIRC/153'',
    \<lparr>organization = ''IAEA'', article = ''INFCIRC/153'',
     description = ''Breach of comprehensive safeguards agreements: Failure to provide information, denial of access to facilities, or concealment of nuclear activities.'',
     severity = CRITICAL, jurisdiction = [''INTERNATIONAL'', ''IAEA'']\<rparr>),
  (''INFCIRC/540'',
    \<lparr>organization = ''IAEA'', article = ''INFCIRC/540'',
     description = ''Breach of Additional Protocol: Failure to provide expanded information or access as required for verification of peaceful use of nuclear material.'',
     severity = HIGH, jurisdiction = [''INTERNATIONAL'', ''IAEA'']\<rparr>),
  (''NPT Article III'',
    \<lparr>organization = ''IAEA'', article = ''NPT Article III'',
     description = ''Violation of the Treaty on the Non-Proliferation of Nuclear Weapons: Non-compliance with obligations to prevent the spread of nuclear weapons and technology.'',
     severity = CRITICAL, jurisdiction = [''INTERNATIONAL'', ''IAEA'']\<rparr>),
  (''International Humanitarian Law (Geneva Conventions, Protocols)'',
    \<lparr>organization = ''WFO'', article = ''International Humanitarian Law (Geneva Conventions, Protocols)'',
     description = ''Starvation of civilians as a method of warfare: Prohibited to attack, destroy, remove, or render useless objects indispensable to the survival of the civilian population, such as foodstuffs, crops, livestock, and water supplies.'',
     severity = CRITICAL, jurisdiction = [''INTERNATIONAL'', ''WFO'']\<rparr>),
  (''Universal Declaration of Human Rights Article 25'',
    \<lparr>organization = ''WFO'', article = ''Universal Declaration of Human Rights Article 25'',
     description = ''Denial of the right to adequate food: Failure to ensure access to sufficient, safe, and nutritious food for all people.'',
     severity = HIGH, jurisdiction = [''INTERNATIONAL'', ''UN'']\<rparr>),
  (''Fourth Geneva Convention Article 33'',
    \<lparr>organization = ''WFO'', article = ''Fourth Geneva Convention Article 33'',
     description = ''Collective punishment: Prohibition of punishing protected persons for offenses they have not personally committed, including through denial of food or humanitarian aid.'',
     severity = HIGH, jurisdiction = [''INTERNATIONAL'', ''WFO'']\<rparr>),
  (''1954 Hague Convention Article 4'',
    \<lparr>organization = ''UNESCO'', article = ''1954 Hague Convention Article 4'',
     description = ''Protection of cultural property in armed conflict: Prohibition of use, theft, pillage, or destruction of cultural property during armed conflict.'',
     severity = HIGH, jurisdiction = [''INTERNATIONAL'', ''UNESCO'']\<rparr>),
  (''1999 Second Protocol Article 15'',
    \<lparr>organization = ''UNESCO'', article = ''1999 Second Protocol Article 15'',
     description = ''Serious violations against cultural property: Attacking, using for military purposes, extensive destruction, theft, pillage, or vandalism of protected cultural property.'',
     severity = HIGH, jurisdiction = [''INTERNATIONAL'', ''UNESCO'']\<rparr>),
  (''1970 Convention Article 3'',
    \<lparr>organization = ''UNESCO'', article = ''1970 Convention Article 3'',
     description = ''Illicit trafficking of cultural property: Prohibition of the import, export, or transfer of ownership of cultural property contrary to the provisions of the Convention.'',
     severity = MEDIUM, jurisdiction = [''INTERNATIONAL'', ''UNESCO'']\<rparr>),
  (''World Heritage Convention Article 11(4)'',
    \<lparr>organization = ''UNESCO'', article = ''World Heritage Convention Article 11(4)'',
     description = ''Failure to protect World Heritage sites: Allowing serious and specific dangers to threaten the conservation of cultural and natural heritage of outstanding universal value.'',
     severity = MEDIUM, jurisdiction = [''INTERNATIONAL'', ''UNESCO'']\<rparr>)
  ]"

text \<open>\<open>INTERNATIONAL_STATUTES[statute] || null\<close>.\<close>

definition getStatuteInfo :: "string \<Rightarrow> StatuteInfo property" where
  "getStatuteInfo s = js_get (map_of INTERNATIONAL_STATUTES) s"

text \<open>\<open>Object.values(INTERNATIONAL_STATUTES)\<close>.\<close>

definition getAllStatutes :: "StatuteInfo list" where
  "getAllStatutes = map snd INTERNATIONAL_STATUTES"

section \<open>Numbers, \<open>parseInt\<close> and \<open>slice\<close>\<close>

text \<open>
  The numbers of this program are results of \<open>parseInt\<close>, array lengths and their sums.
  They are IEEE doubles, and those that can arise are the doubles with an integer value,
  the two infinities and \<open>NaN\<close>. A double with an integer value is represented by that
  integer; negative zero, which \<open>parseInt\<close> gives for the text \<open>-0\<close>, is represented by 0,
  as which it adds, compares and indexes.
\<close>

datatype number = NaN | Num int | PosInfinity | NegInfinity

text \<open>
  The double nearest to an integer. Below \<open>2^53\<close> every integer is a double. From there
  on a double has 53 significant bits: \<open>exponent m\<close> is the number of bits of \<open>m\<close> beyond
  53, the bits cut off round to the nearer neighbour, and a tie rounds to the neighbour
  with the even significand. A magnitude that rounds to \<open>2^1024\<close> or more is infinite.
\<close>

fun exponent :: "nat \<Rightarrow> nat" where
  "exponent m = (if m < 2 ^ 53 then 0 else Suc (exponent (m div 2)))"

declare exponent.simps [simp del]

definition round_nat :: "nat \<Rightarrow> nat" where
  "round_nat m =
     (if m < 2 ^ 53 then m
      else
        let e = exponent m;
            q = m div 2 ^ e;
            r = m mod 2 ^ e;
            half = 2 ^ (e - 1);
            q' = (if half < r \<or> (r = half \<and> odd q) then q + 1 else q)
        in q' * 2 ^ e)"

definition double_limit :: nat where
  "double_limit = 2 ^ 1024"

definition round_double :: "int \<Rightarrow> number" where
  "round_double n =
     (let v = round_nat (nat \<bar>n\<bar>)
      in if double_limit \<le> v then (if n < 0 then NegInfinity else PosInfinity)
         else Num (if n < 0 then - int v else int v))"

text \<open>
  The white space that \<open>parseInt\<close> skips: the code points TAB, LF, VT, FF, CR, SP,
  U+00A0, U+1680, U+2000 to U+200A, U+2028, U+2029, U+202F, U+205F, U+3000 and U+FEFF.
  \<open>white_prefix s\<close> is the number of bytes of such a code point at the head of \<open>s\<close>, and 0
  when there is none.
\<close>

definition white_prefix :: "string \<Rightarrow> nat" where
  "white_prefix s =
     (case map (of_char :: char \<Rightarrow> nat) (take 3 s) of
        [] \<Rightarrow> 0
      | a # rest \<Rightarrow>
          if a \<in> {9, 10, 11, 12, 13, 32} then 1
          else (case rest of
                  [] \<Rightarrow> 0
                | b # rest' \<Rightarrow>
                    if a = 194 \<and> b = 160 then 2
                    else (case rest' of
                            [] \<Rightarrow> 0
                          | c # _ \<Rightarrow>
                              if (a = 225 \<and> b = 154 \<and> c = 128) \<or>
                                 (a = 226 \<and> b = 128 \<and>
                                    (128 \<le> c \<and> c \<le> 138 \<or> c = 168 \<or> c = 169 \<or> c = 175)) \<or>
                                 (a = 226 \<and> b = 129 \<and> c = 159) \<or>
                                 (a = 227 \<and> b = 128 \<and> c = 128) \<or>
                                 (a = 239 \<and> b = 187 \<and> c = 191)
                              then 3 else 0)))"

fun skip_white :: "string \<Rightarrow> string" where
  "skip_white [] = []"
| "skip_white (c # cs) =
     (if white_prefix (c # cs) = 0 then c # cs
      else skip_white (drop (white_prefix (c # cs) - 1) cs))"

text \<open>The value of a digit in the given radix, if it is one.\<close>

definition digit_value :: "nat \<Rightarrow> char \<Rightarrow> nat option" where
  "digit_value radix c =
     (let n = (of_char c :: nat);
          d = (if 48 \<le> n \<and> n \<le> 57 then Some (n - 48)
               else if 97 \<le> n \<and> n \<le> 122 then Some (n - 87)
               else if 65 \<le> n \<and> n \<le> 90 then Some (n - 55)
               else None)
      in case d of None \<Rightarrow> None | Some v \<Rightarrow> if v < radix then Some v else None)"

text \<open>The leading digits of the text, as a number; \<open>None\<close> when there is none.\<close>

fun digits_prefix :: "nat \<Rightarrow> nat option \<Rightarrow> string \<Rightarrow> nat option" where
  "digits_prefix radix acc [] = acc"
| "digits_prefix radix acc (c # cs) =
     (case digit_value radix c of
        None \<Rightarrow> acc
      | Some d \<Rightarrow>
          digits_prefix radix (Some ((case acc of None \<Rightarrow> 0 | Some a \<Rightarrow> a) * radix + d)) cs)"

text \<open>\<open>parseInt(s)\<close> with no radix argument: leading white space is skipped, a sign is
  read, the prefix \<open>0x\<close> or \<open>0X\<close> selects radix 16 (radix 10 otherwise), and the longest
  run of digits is the value, as the nearest double; \<open>NaN\<close> when that run is empty.\<close>

definition parseInt :: "string \<Rightarrow> number" where
  "parseInt s =
     (let s1 = skip_white s;
          negative = (case s1 of [] \<Rightarrow> False | c # _ \<Rightarrow> c = CHR ''-'');
          s2 = (case s1 of [] \<Rightarrow> []
                | c # r \<Rightarrow> if c = CHR ''-'' \<or> c = CHR ''+'' then r else s1);
          hex = (take 2 s2 = ''0x'' \<or> take 2 s2 = ''0X'');
          radix = (if hex then 16 else 10);
          s3 = (if hex then drop 2 s2 else s2)
      in case digits_prefix radix None s3 of
           None \<Rightarrow> NaN
         | Some n \<Rightarrow> round_double (if negative then - int n else int n))"

text \<open>\<open>a + b\<close> and \<open>a < b\<close> on numbers: a sum is rounded to the nearest double, \<open>NaN\<close> is
  contagious and compares false, and the sum of the two infinities is \<open>NaN\<close>.\<close>

fun num_add :: "number \<Rightarrow> number \<Rightarrow> number" where
  "num_add (Num a) (Num b) = round_double (a + b)"
| "num_add NaN y = NaN"
| "num_add x NaN = NaN"
| "num_add PosInfinity NegInfinity = NaN"
| "num_add NegInfinity PosInfinity = NaN"
| "num_add PosInfinity y = PosInfinity"
| "num_add NegInfinity y = NegInfinity"
| "num_add x PosInfinity = PosInfinity"
| "num_add x NegInfinity = NegInfinity"

fun num_less :: "number \<Rightarrow> number \<Rightarrow> bool" where
  "num_less (Num a) (Num b) = (a < b)"
| "num_less NaN y = False"
| "num_less x NaN = False"
| "num_less NegInfinity NegInfinity = False"
| "num_less NegInfinity y = True"
| "num_less x PosInfinity = (x \<noteq> PosInfinity)"
| "num_less PosInfinity y = False"
| "num_less x NegInfinity = False"

text \<open>\<open>xs.slice(start, end)\<close>: each bound is made an integer (\<open>NaN\<close> becomes 0), a negative
  bound counts from the end of the array, both are clamped to the array, and the elements
  from the first bound up to the second are returned.\<close>

fun relative_index :: "number \<Rightarrow> nat \<Rightarrow> nat" where
  "relative_index NaN len = 0"
| "relative_index NegInfinity len = 0"
| "relative_index PosInfinity len = len"
| "relative_index (Num k) len = (if k < 0 then nat (max (int len + k) 0) else min (nat k) len)"

definition slice :: "'a list \<Rightarrow> number \<Rightarrow> number \<Rightarrow> 'a list" where
  "slice xs start stop =
     (let len = length xs;
          k = relative_index start len;
          final = relative_index stop len
      in take (final - k) (drop k xs))"

section \<open>Violation records and the key-value store (types.ts)\<close>

text \<open>
  A timestamp is an ISO-8601 string produced by \<open>new Date().toISOString()\<close> and read back
  by \<open>new Date(s)\<close>; it is represented by the instant it denotes, in milliseconds since
  the epoch, on which the two conversions are inverse.

  The three fields of \<open>violation\<close> are copied from the looked-up statute. They are optional
  here because the copy of a field that the looked-up object does not have is
  \<open>undefined\<close>, and \<open>JSON.stringify\<close> leaves such a field out of the stored record.
\<close>

record violation_info =
  v_description :: "string option"
  v_severity :: "severity option"
  v_jurisdiction :: "string list option"

record report_metadata =
  reportedAt :: int
  mcpVersion :: string
  detectedBy :: string

record ViolationReport =
  report_id :: string
  timestamp :: int
  statute :: string
  responsibleOrganization :: string
  offendingContent :: string
  violation :: violation_info
  metadata :: report_metadata

text \<open>A record has the shape the interface \<open>ViolationReport\<close> declares when its three
  copied fields are present.\<close>

definition conforms :: "ViolationReport \<Rightarrow> bool" where
  "conforms v =
     (v_description (violation v) \<noteq> None \<and> v_severity (violation v) \<noteq> None \<and>
      v_jurisdiction (violation v) \<noteq> None)"

record SimpleViolationRequest =
  req_statute :: "string option"
  responsible_organization :: "string option"
  offending_content :: "string option"

text \<open>What one submission reads from its environment: the identifier
  \<open>Math.random().toString(36).substring(2, 15)\<close> and the two readings of the clock.\<close>

record env =
  random_id :: string
  now_timestamp :: int
  now_reportedAt :: int

text \<open>
  The store \<open>VIOLATIONS_KV\<close>. Its keys are \<open>violation:<id>\<close>, holding the JSON text of one
  record, and \<open>violation_list\<close>, holding the JSON text of the array of identifiers; no
  key of the first form equals the second. \<open>JSON.parse\<close> gives back what
  \<open>JSON.stringify\<close> was given, so the store is modelled by the values it holds.
\<close>

record kv =
  records :: "string \<rightharpoonup> ViolationReport"
  violation_list :: "string list option"

definition empty_kv :: kv where
  "empty_kv = \<lparr>records = Map.empty, violation_list = None\<rparr>"

text \<open>\<open>existingList ? JSON.parse(existingList) : []\<close>.\<close>

definition list_ids :: "kv \<Rightarrow> string list" where
  "list_ids s = (case violation_list s of None \<Rightarrow> [] | Some ids \<Rightarrow> ids)"

text \<open>The loop that fetches the record of every identifier of the index, skipping the
  identifiers that have none.\<close>

fun fetch_loop :: "kv \<Rightarrow> string list \<Rightarrow> ViolationReport list \<Rightarrow> ViolationReport list" where
  "fetch_loop s [] violations = violations"
| "fetch_loop s (i # ids) violations =
     (case records s i of
        None \<Rightarrow> fetch_loop s ids violations
      | Some v \<Rightarrow> fetch_loop s ids (violations @ [v]))"

definition fetch_violations :: "kv \<Rightarrow> ViolationReport list" where
  "fetch_violations s = fetch_loop s (list_ids s) []"

section \<open>Submitting a report\<close>

text \<open>The object literal that both transports build for an accepted report.\<close>

definition new_violation ::
  "env \<Rightarrow> string \<Rightarrow> string \<Rightarrow> string \<Rightarrow> StatuteInfo property \<Rightarrow> ViolationReport" where
  "new_violation e st org content statuteInfo =
     \<lparr>report_id = random_id e,
      timestamp = now_timestamp e,
      statute = st,
      responsibleOrganization = org,
      offendingContent = content,
      violation =
        \<lparr>v_description = field description statuteInfo,
         v_severity = field severity statuteInfo,
         v_jurisdiction = field jurisdiction statuteInfo\<rparr>,
      metadata =
        \<lparr>reportedAt = now_reportedAt e,
         mcpVersion = ''1.0'',
         detectedBy = org @ '' Safety System''\<rparr>\<rparr>"

text \<open>The two writes: the record under its identifier, then the index with the identifier
  put in front (\<open>unshift\<close>).\<close>

definition store_violation :: "ViolationReport \<Rightarrow> kv \<Rightarrow> kv" where
  "store_violation v s =
     (let s1 = s\<lparr>records := (records s)(report_id v \<mapsto> v)\<rparr>;
          violationIds = report_id v # list_ids s1
      in s1\<lparr>violation_list := Some violationIds\<rparr>)"

text \<open>The checks and writes that \<open>POST /api/violations/report\<close> and the tool
  \<open>report_violation\<close> share, statement for statement.\<close>

datatype submit_error = MissingFields | UnknownStatute string

definition submit ::
  "env \<Rightarrow> SimpleViolationRequest \<Rightarrow> kv \<Rightarrow>
     submit_error + (ViolationReport \<times> StatuteInfo property \<times> kv)" where
  "submit e body s =
     (if \<not> truthy (req_statute body) \<or> \<not> truthy (responsible_organization body) \<or>
         \<not> truthy (offending_content body)
      then Inl MissingFields
      else
        let st = or_default (req_statute body) [];
            org = or_default (responsible_organization body) [];
            content = or_default (offending_content body) [];
            statuteInfo = getStatuteInfo st
        in if statuteInfo = Absent then Inl (UnknownStatute st)
           else
             let v = new_violation e st org content statuteInfo
             in Inr (v, statuteInfo, store_violation v s))"

subsection \<open>REST: \<open>POST /api/violations/report\<close>\<close>

record report_accepted =
  violationId :: string
  severity_out :: "severity option"
  organization_out :: "string option"

datatype 'a response = Status nat 'a | Failure nat string

text \<open>The body is \<open>None\<close> when it is not JSON or is \<open>null\<close>: reading it throws, and the
  handler's \<open>catch\<close> answers.\<close>

definition api_report ::
  "env \<Rightarrow> SimpleViolationRequest option \<Rightarrow> kv \<Rightarrow> report_accepted response \<times> kv" where
  "api_report e body s =
     (case body of
        None \<Rightarrow> (Failure 400 ''Invalid request format'', s)
      | Some b \<Rightarrow>
          (case submit e b s of
             Inl MissingFields \<Rightarrow>
               (Failure 400
                  ''Missing required fields: statute, responsible_organization, offending_content'',
                s)
           | Inl (UnknownStatute st) \<Rightarrow>
               (Failure 400
                  (''Unknown statute: '' @ st @ ''. Please use a valid international law statute.''),
                s)
           | Inr (v, statuteInfo, s') \<Rightarrow>
               (Status 200
                  \<lparr>violationId = report_id v,
                   severity_out = v_severity (violation v),
                   organization_out = field organization statuteInfo\<rparr>,
                s')))"

subsection \<open>REST: \<open>GET /api/violations\<close> and \<open>GET /api/violations/:id\<close>\<close>

text \<open>An exception thrown by the engine: \<open>TypeError x\<close> is raised when a property is read
  from the expression \<open>x\<close> and its value is \<open>undefined\<close>.\<close>

datatype exn = TypeError string

record query =
  limit_q :: "string option"
  offset_q :: "string option"
  severity_q :: "string option"
  jurisdiction_q :: "string option"

record page =
  violations :: "ViolationReport list"
  total :: nat
  hasMore :: bool

text \<open>\<open>filtered.filter(v => v.violation.severity === severity)\<close>.\<close>

definition filter_severity :: "string \<Rightarrow> ViolationReport list \<Rightarrow> ViolationReport list" where
  "filter_severity sev vs =
     filter (\<lambda>v. map_option severity_text (v_severity (violation v)) = Some sev) vs"

text \<open>\<open>filtered.filter(v => v.violation.jurisdiction.includes(jurisdiction))\<close>: the call of
  \<open>includes\<close> throws on a record that has no jurisdiction list.\<close>

fun filter_jurisdiction :: "string \<Rightarrow> ViolationReport list \<Rightarrow> exn + ViolationReport list" where
  "filter_jurisdiction j [] = Inr []"
| "filter_jurisdiction j (v # vs) =
     (case v_jurisdiction (violation v) of
        None \<Rightarrow> Inl (TypeError ''v.violation.jurisdiction'')
      | Some js \<Rightarrow>
          (case filter_jurisdiction j vs of
             Inl e \<Rightarrow> Inl e
           | Inr kept \<Rightarrow> Inr (if j \<in> set js then v # kept else kept)))"

text \<open>The handler of \<open>GET /api/violations\<close>. \<open>Inl\<close> is an exception that leaves the handler
  (the framework answers 500).\<close>

definition api_violations :: "query \<Rightarrow> kv \<Rightarrow> exn + page" where
  "api_violations q s =
     (let limit = parseInt (or_default (limit_q q) ''50'');
          offset = parseInt (or_default (offset_q q) ''0'');
          fetched = fetch_violations s;
          by_severity =
            (if truthy (severity_q q) then filter_severity (or_default (severity_q q) []) fetched
             else fetched)
      in case (if truthy (jurisdiction_q q)
               then filter_jurisdiction (or_default (jurisdiction_q q) []) by_severity
               else Inr by_severity) of
           Inl e \<Rightarrow> Inl e
         | Inr filtered \<Rightarrow>
             Inr \<lparr>violations = slice filtered offset (num_add offset limit),
                  total = length filtered,
                  hasMore = num_less (num_add offset limit) (Num (int (length filtered)))\<rparr>)"

text \<open>The handler of \<open>GET /api/violations/:id\<close>, given the value of the route parameter.\<close>

definition api_violation_by_id :: "string \<Rightarrow> kv \<Rightarrow> ViolationReport response" where
  "api_violation_by_id i s =
     (case records s i of
        None \<Rightarrow> Failure 404 ''Violation not found''
      | Some v \<Rightarrow> Status 200 v)"

subsection \<open>REST: \<open>GET /api/stats\<close>\<close>

text \<open>
  The tallies are built by \<open>reduce\<close> over an object literal \<open>{}\<close> with
  \<open>acc[k] = (acc[k] || 0) + 1\<close>. The value read at \<open>k\<close> is an own property when there is
  one, the inherited member of \<open>Object.prototype\<close> when \<open>k\<close> names one, and \<open>undefined\<close>
  otherwise; adding 1 to a function or an object concatenates its text with \<open>1\<close>. The
  assignment makes an own property, except at \<open>__proto__\<close>, where assigning a string does
  nothing.
\<close>

datatype tally = Count nat | Text string

text \<open>The text of a member of \<open>Object.prototype\<close> (as V8 prints a built-in function).\<close>

definition member_text :: "string \<Rightarrow> string" where
  "member_text k =
     (if k = ''__proto__'' then ''[object Object]''
      else ''function '' @ (if k = ''constructor'' then ''Object'' else k) @
           ''() { [native code] }'')"

definition increment :: "(string \<rightharpoonup> tally) \<Rightarrow> string \<Rightarrow> (string \<rightharpoonup> tally)" where
  "increment acc k =
     (let v = (case js_get acc k of
                 Absent \<Rightarrow> Count 1
               | Own (Count n) \<Rightarrow> Count (n + 1)
               | Own (Text t) \<Rightarrow> if t = [] then Count 1 else Text (t @ ''1'')
               | Inherited m \<Rightarrow> Text (member_text m @ ''1''))
      in if k = ''__proto__'' then acc else acc(k \<mapsto> v))"

text \<open>The key \<open>v.violation.severity\<close> as a property name.\<close>

definition severity_key :: "ViolationReport \<Rightarrow> string" where
  "severity_key v =
     (case v_severity (violation v) of None \<Rightarrow> ''undefined'' | Some sv \<Rightarrow> severity_text sv)"

definition count_severity :: "ViolationReport list \<Rightarrow> (string \<rightharpoonup> tally)" where
  "count_severity vs = foldl (\<lambda>acc v. increment acc (severity_key v)) Map.empty vs"

definition count_organization :: "ViolationReport list \<Rightarrow> (string \<rightharpoonup> tally)" where
  "count_organization vs =
     foldl (\<lambda>acc v. increment acc (responsibleOrganization v)) Map.empty vs"

text \<open>The reduction for \<open>byJurisdiction\<close>: \<open>forEach\<close> is called on the jurisdiction list of
  each record, and throws on a record that has none.\<close>

fun count_jurisdiction ::
  "(string \<rightharpoonup> tally) \<Rightarrow> ViolationReport list \<Rightarrow> exn + (string \<rightharpoonup> tally)" where
  "count_jurisdiction acc [] = Inr acc"
| "count_jurisdiction acc (v # vs) =
     (case v_jurisdiction (violation v) of
        None \<Rightarrow> Inl (TypeError ''v.violation.jurisdiction'')
      | Some js \<Rightarrow> count_jurisdiction (foldl increment acc js) vs)"

text \<open>\<open>violations.filter(v => new Date(v.timestamp) > yesterday).length\<close>, with
  \<open>yesterday\<close> 24 hours before \<open>now\<close>.\<close>

definition count_recent :: "int \<Rightarrow> ViolationReport list \<Rightarrow> nat" where
  "count_recent now vs =
     length (filter (\<lambda>v. timestamp v > now - 24 * 60 * 60 * 1000) vs)"

record ViolationStats =
  stats_total :: nat
  bySeverity :: "string \<rightharpoonup> tally"
  byJurisdiction :: "string \<rightharpoonup> tally"
  byAiTool :: "string \<rightharpoonup> tally"
  recent24h :: nat

definition api_stats :: "int \<Rightarrow> kv \<Rightarrow> exn + ViolationStats" where
  "api_stats now s =
     (let fetched = fetch_violations s
      in case count_jurisdiction Map.empty fetched of
           Inl e \<Rightarrow> Inl e
         | Inr by_jurisdiction \<Rightarrow>
             Inr \<lparr>stats_total = length fetched,
                  bySeverity = count_severity fetched,
                  byJurisdiction = by_jurisdiction,
                  byAiTool = count_organization fetched,
                  recent24h = count_recent now fetched\<rparr>)"

section \<open>The tool-call transport: \<open>POST /mcp\<close>\<close>

text \<open>The \<open>id\<close> of a JSON-RPC envelope.\<close>

datatype rpc_id = IdNumber int | IdString string | IdNull

record tool_arguments =
  arg_statute :: "string option"
  arg_responsible_organization :: "string option"
  arg_offending_content :: "string option"
  arg_limit :: "number option"
  arg_severity :: "string option"

record rpc_params =
  protocolVersion :: "string option"
  tool_name :: "string option"
  arguments :: "tool_arguments option"

record rpc_request =
  jsonrpc :: "string option"
  rpc_method :: "string option"
  request_id :: "rpc_id option"
  params :: "rpc_params option"

text \<open>The statistics computed by the tool \<open>get_violation_stats\<close>.\<close>

record tool_stats =
  tool_total :: nat
  tool_bySeverity :: "string \<rightharpoonup> tally"
  byOrganization :: "string \<rightharpoonup> tally"
  tool_recent24h :: nat

text \<open>The text of a tool result is a template filled with data; the constructors below
  carry the data and stand for the filled templates.\<close>

datatype tool_text =
    ViolationReported ViolationReport "string option" string
  | StatutesListed "StatuteInfo list"
  | Statistics tool_stats
  | NoViolationsFound
  | ViolationsListed "ViolationReport list" nat

datatype rpc_result = Initialized string | Tools "string list" | Content tool_text

text \<open>An error message is a fixed or interpolated text, or \<open>Internal e\<close>: the text
  \<open>Internal error:\<close> followed by the engine's message for the exception \<open>e\<close>.\<close>

datatype error_message = Message string | Internal exn

datatype rpc_payload = Result rpc_id rpc_result | Error rpc_id int error_message

text \<open>A response body: a JSON document, or an event stream given by its frames, the frame
  \<open>(ev, p)\<close> being the text \<open>event: ev\<close>, newline, \<open>data: \<close> and the JSON text of \<open>p\<close>,
  and two newlines.\<close>

datatype http_body = Json rpc_payload | EventStream "(string \<times> rpc_payload) list"

type_synonym http_response = "nat \<times> http_body"

definition sendMcpResponse :: "rpc_payload \<Rightarrow> bool \<Rightarrow> http_response" where
  "sendMcpResponse response wantsStream =
     (if wantsStream then (200, EventStream [(''message'', response)])
      else (200, Json response))"

text \<open>\<open>s.includes(p)\<close> on strings.\<close>

fun starts_with :: "string \<Rightarrow> string \<Rightarrow> bool" where
  "starts_with cs [] = True"
| "starts_with [] (p # ps) = False"
| "starts_with (c # cs) (p # ps) = (c = p \<and> starts_with cs ps)"

fun includes_text :: "string \<Rightarrow> string \<Rightarrow> bool" where
  "includes_text [] p = (p = [])"
| "includes_text (c # cs) p = (starts_with (c # cs) p \<or> includes_text cs p)"

text \<open>\<open>accept?.includes('text/event-stream')\<close>.\<close>

definition wants_stream :: "string option \<Rightarrow> bool" where
  "wants_stream accept =
     (case accept of None \<Rightarrow> False | Some a \<Rightarrow> includes_text a ''text/event-stream'')"

text \<open>\<open>body.id || null\<close>: zero, the empty string and a missing \<open>id\<close> become \<open>null\<close>.\<close>

definition id_or_null :: "rpc_id option \<Rightarrow> rpc_id" where
  "id_or_null i =
     (case i of
        None \<Rightarrow> IdNull
      | Some (IdNumber n) \<Rightarrow> if n = 0 then IdNull else IdNumber n
      | Some (IdString t) \<Rightarrow> if t = [] then IdNull else IdString t
      | Some IdNull \<Rightarrow> IdNull)"

definition as_request :: "tool_arguments \<Rightarrow> SimpleViolationRequest" where
  "as_request a =
     \<lparr>req_statute = arg_statute a,
      responsible_organization = arg_responsible_organization a,
      offending_content = arg_offending_content a\<rparr>"

text \<open>\<open>xs.join(', ')\<close>.\<close>

fun join_comma :: "string list \<Rightarrow> string" where
  "join_comma [] = []"
| "join_comma [x] = x"
| "join_comma (x # y # r) = x @ '', '' @ join_comma (y # r)"

text \<open>The answer of the handler's \<open>catch\<close>.\<close>

definition internal_error :: "exn \<Rightarrow> http_response" where
  "internal_error e = (500, Json (Error IdNull (- 32603) (Internal e)))"

definition quoted :: "string \<Rightarrow> string" where
  "quoted t = CHR 0x27 # t @ [CHR 0x27]"

text \<open>The case \<open>tools/call\<close>. Every answer is given with \<open>c.json\<close>.\<close>

definition tools_call ::
  "env \<Rightarrow> int \<Rightarrow> rpc_id \<Rightarrow> rpc_params option \<Rightarrow> kv \<Rightarrow> http_response \<times> kv" where
  "tools_call e now i ps s =
     (let name = (case ps of None \<Rightarrow> None | Some p \<Rightarrow> tool_name p);
          args = (case ps of None \<Rightarrow> None | Some p \<Rightarrow> arguments p)
      in if \<not> truthy name
         then ((400, Json (Error i (- 32602) (Message ''Invalid params - missing tool name''))), s)
         else if name = Some ''report_violation'' then
           (case args of
              None \<Rightarrow> (internal_error (TypeError ''args''), s)
            | Some a \<Rightarrow>
                (case submit e (as_request a) s of
                   Inl MissingFields \<Rightarrow>
                     ((400, Json (Error i (- 32602) (Message
                        ''Missing required fields: statute, responsible_organization, offending_content''))),
                      s)
                 | Inl (UnknownStatute st) \<Rightarrow>
                     ((400, Json (Error i (- 32602) (Message
                        (''Unknown statute: '' @ st @
                         ''. Use list_statutes tool to see available statutes.'')))),
                      s)
                 | Inr (v, statuteInfo, s') \<Rightarrow>
                     (case v_jurisdiction (violation v) of
                        None \<Rightarrow> (internal_error (TypeError ''violation.violation.jurisdiction''), s')
                      | Some js \<Rightarrow>
                          ((200, Json (Result i (Content
                             (ViolationReported v (field organization statuteInfo) (join_comma js))))),
                           s'))))
         else if name = Some ''list_statutes'' then
           ((200, Json (Result i (Content (StatutesListed getAllStatutes)))), s)
         else if name = Some ''get_violation_stats'' then
           (let fetched = fetch_violations s
            in ((200, Json (Result i (Content (Statistics
                  \<lparr>tool_total = length fetched,
                   tool_bySeverity = count_severity fetched,
                   byOrganization = count_organization fetched,
                   tool_recent24h = count_recent now fetched\<rparr>)))),
                s))
         else if name = Some ''list_violations'' then
           (case args of
              None \<Rightarrow> (internal_error (TypeError ''args''), s)
            | Some a \<Rightarrow>
                (let limit = (case arg_limit a of None \<Rightarrow> Num 10 | Some n \<Rightarrow> n);
                     fetched = fetch_violations s;
                     matching =
                       (if truthy (arg_severity a)
                        then filter_severity (or_default (arg_severity a) []) fetched
                        else fetched);
                     recentViolations = slice matching (Num 0) limit
                 in if recentViolations = []
                    then ((200, Json (Result i (Content NoViolationsFound))), s)
                    else ((200, Json (Result i (Content
                            (ViolationsListed recentViolations (length matching))))),
                          s)))
         else ((404, Json (Error i (- 32601) (Message
                 (''Tool '' @ quoted (or_default name []) @ '' not found'')))),
               s))"

text \<open>The handler of \<open>POST /mcp\<close> on a body that is a JSON object; \<open>accept\<close> is the
  \<open>Accept\<close> header.\<close>

definition mcp_post ::
  "env \<Rightarrow> int \<Rightarrow> string option \<Rightarrow> rpc_request \<Rightarrow> kv \<Rightarrow> http_response \<times> kv" where
  "mcp_post e now accept body s =
     (let wantsStream = wants_stream accept
      in if jsonrpc body \<noteq> Some ''2.0'' \<or> \<not> truthy (rpc_method body) \<or> request_id body = None
         then
           (let errorResponse =
                  Error (id_or_null (request_id body)) (- 32600)
                    (Message ''Invalid Request - must be JSON-RPC 2.0 format'')
            in if wantsStream then ((200, EventStream [(''message'', errorResponse)]), s)
               else ((400, Json errorResponse), s))
         else
           (let m = or_default (rpc_method body) [];
                i = (case request_id body of None \<Rightarrow> IdNull | Some j \<Rightarrow> j)
            in if m = ''initialize'' then
                 (sendMcpResponse
                    (Result i (Initialized
                       (or_default (case params body of None \<Rightarrow> None | Some p \<Rightarrow> protocolVersion p)
                          ''2024-11-05'')))
                    wantsStream,
                  s)
               else if m = ''tools/list'' then
                 (sendMcpResponse (Result i (Tools [''report_violation'', ''list_statutes''])) wantsStream, s)
               else if m = ''tools/call'' then tools_call e now i (params body) s
               else ((404, Json (Error i (- 32601) (Message
                       (''Method '' @ quoted m @ '' not found'')))),
                     s)))"

section \<open>The specification's reading of a query\<close>

text \<open>
  The specification describes the page of a query as the slice \<open>[offset, offset+limit)\<close>
  of the filtered sequence, the filters as exact severity match and jurisdiction
  membership. These definitions follow those words, to be compared with the handler.
\<close>

text \<open>The elements whose position \<open>i\<close>, counted from \<open>pos\<close>, satisfies \<open>lo \<le> i < hi\<close>.\<close>

fun interval_slice :: "'a list \<Rightarrow> int \<Rightarrow> int \<Rightarrow> int \<Rightarrow> 'a list" where
  "interval_slice [] pos lo hi = []"
| "interval_slice (x # xs) pos lo hi =
     (if lo \<le> pos \<and> pos < hi then x # interval_slice xs (pos + 1) lo hi
      else interval_slice xs (pos + 1) lo hi)"

definition spec_filter ::
  "string option \<Rightarrow> string option \<Rightarrow> ViolationReport list \<Rightarrow> ViolationReport list" where
  "spec_filter sev jur vs =
     filter
       (\<lambda>v. (case sev of None \<Rightarrow> True
              | Some x \<Rightarrow> map_option severity_text (v_severity (violation v)) = Some x) \<and>
             (case jur of None \<Rightarrow> True
              | Some j \<Rightarrow> (case v_jurisdiction (violation v) of None \<Rightarrow> False | Some js \<Rightarrow> j \<in> set js)))
       vs"

definition spec_query ::
  "string option \<Rightarrow> string option \<Rightarrow> int \<Rightarrow> int \<Rightarrow> ViolationReport list \<Rightarrow> page" where
  "spec_query sev jur limit offset vs =
     (let filtered = spec_filter sev jur vs
      in \<lparr>violations = interval_slice filtered 0 offset (offset + limit),
          total = length filtered,
          hasMore = (offset + limit < int (length filtered))\<rparr>)"

text \<open>The amended reading of a filter: a filter given as the empty string counts as
  absent.\<close>

definition given_filter :: "string option \<Rightarrow> string option" where
  "given_filter f = (case f of None \<Rightarrow> None | Some x \<Rightarrow> if x = [] then None else Some x)"

section \<open>Sequences of submissions\<close>

text \<open>Submissions made one after the other, each from the state the previous one left;
  the result lists the records in the order of submission, and is \<open>None\<close> when one of them
  is refused.\<close>

fun submit_all ::
  "(env \<times> SimpleViolationRequest) list \<Rightarrow> kv \<Rightarrow> (ViolationReport list \<times> kv) option" where
  "submit_all [] s = Some ([], s)"
| "submit_all ((e, body) # rest) s =
     (case submit e body s of
        Inl err \<Rightarrow> None
      | Inr (v, statuteInfo, s') \<Rightarrow>
          (case submit_all rest s' of
             None \<Rightarrow> None
           | Some (vs, s'') \<Rightarrow> Some (v # vs, s'')))"

section \<open>The specification's reading of a tally\<close>

text \<open>A bucket that has been incremented \<open>n\<close> times: no bucket for \<open>n = 0\<close>, the count
  \<open>n\<close> otherwise.\<close>

fun tally_of :: "nat \<Rightarrow> tally option" where
  "tally_of 0 = None"
| "tally_of (Suc n) = Some (Count (Suc n))"

text \<open>Every jurisdiction entry of every record, in order.\<close>

definition jurisdiction_entries :: "ViolationReport list \<Rightarrow> string list" where
  "jurisdiction_entries vs =
     concat (map (\<lambda>v. case v_jurisdiction (violation v) of None \<Rightarrow> [] | Some js \<Rightarrow> js) vs)"

section \<open>Example inputs\<close>

text \<open>Two submissions and the states they leave when made one after the other into the
  empty store, and a state whose index names an identifier that has no record.\<close>

definition example_env :: env where
  "example_env = \<lparr>random_id = ''k3x9'', now_timestamp = 1000, now_reportedAt = 1001\<rparr>"

definition example_request :: SimpleViolationRequest where
  "example_request =
     \<lparr>req_statute = Some ''Rome Statute Article 7'', responsible_organization = Some ''TestAI'',
      offending_content = Some ''x''\<rparr>"

definition example_report :: ViolationReport where
  "example_report =
     new_violation example_env ''Rome Statute Article 7'' ''TestAI'' ''x''
       (getStatuteInfo ''Rome Statute Article 7'')"

definition example_store :: kv where
  "example_store = store_violation example_report empty_kv"

definition later_env :: env where
  "later_env = \<lparr>random_id = ''p07q'', now_timestamp = 2000, now_reportedAt = 2001\<rparr>"

definition later_request :: SimpleViolationRequest where
  "later_request =
     \<lparr>req_statute = Some ''INFCIRC/540'', responsible_organization = Some ''OtherAI'',
      offending_content = Some ''y''\<rparr>"

definition later_report :: ViolationReport where
  "later_report =
     new_violation later_env ''INFCIRC/540'' ''OtherAI'' ''y'' (getStatuteInfo ''INFCIRC/540'')"

definition later_store :: kv where
  "later_store = store_violation later_report example_store"

definition dangling_store :: kv where
  "dangling_store = later_store\<lparr>violation_list := Some [''p07q'', ''gone'', ''k3x9'']\<rparr>"

text \<open>A third submission that draws the identifier of the first, and the state it leaves
  after the first.\<close>

definition repeat_env :: env where
  "repeat_env = \<lparr>random_id = ''k3x9'', now_timestamp = 3000, now_reportedAt = 3001\<rparr>"

definition repeat_report :: ViolationReport where
  "repeat_report =
     new_violation repeat_env ''INFCIRC/540'' ''OtherAI'' ''y'' (getStatuteInfo ''INFCIRC/540'')"

definition repeat_store :: kv where
  "repeat_store = store_violation repeat_report example_store"

text \<open>The record that a submission with the statute \<open>constructor\<close> writes, and a state
  that holds it and whose index also names an identifier that has no record.\<close>

definition malformed_report :: ViolationReport where
  "malformed_report =
     new_violation example_env ''constructor'' ''TestAI'' ''x'' (getStatuteInfo ''constructor'')"

definition malformed_store :: kv where
  "malformed_store =
     (store_violation malformed_report empty_kv)\<lparr>violation_list := Some [''k3x9'', ''gone'']\<rparr>"

section \<open>The registry and the store\<close>

lemma getStatuteInfo_own:
  "map_of INTERNATIONAL_STATUTES st = Some info \<Longrightarrow> getStatuteInfo st = Own info"
  by (simp add: getStatuteInfo_def js_get_def)

text \<open>The names of the registry entries, and the names the registry object inherits:
  none of the latter is an entry, and the lookup finds each of them.\<close>

lemma registry_keys:
  "map fst INTERNATIONAL_STATUTES =
    [''Rome Statute Article 6'', ''Rome Statute Article 7'', ''Rome Statute Article 8'',
     ''Rome Statute Article 8 bis'', ''IAEA Statute Article XII.C'', ''INFCIRC/153'',
     ''INFCIRC/540'', ''NPT Article III'',
     ''International Humanitarian Law (Geneva Conventions, Protocols)'',
     ''Universal Declaration of Human Rights Article 25'',
     ''Fourth Geneva Convention Article 33'', ''1954 Hague Convention Article 4'',
     ''1999 Second Protocol Article 15'', ''1970 Convention Article 3'',
     ''World Heritage Convention Article 11(4)'']"
  by (simp add: INTERNATIONAL_STATUTES_def)

lemma inherited_names_are_not_entries:
  "list_all (\<lambda>k. k \<notin> set (map fst INTERNATIONAL_STATUTES)) Object_prototype_keys"
  by (simp add: registry_keys Object_prototype_keys_def)

lemma getStatuteInfo_inherited:
  assumes "k \<in> set Object_prototype_keys"
  shows "map_of INTERNATIONAL_STATUTES k = None \<and> getStatuteInfo k = Inherited k"
proof -
  from assms inherited_names_are_not_entries have "k \<notin> set (map fst INTERNATIONAL_STATUTES)"
    by (simp add: list_all_iff)
  then have "map_of INTERNATIONAL_STATUTES k = None"
    by (simp add: map_of_eq_None_iff)
  with assms show ?thesis
    by (simp add: getStatuteInfo_def js_get_def)
qed

lemma constructor_inherited: "''constructor'' \<in> set Object_prototype_keys"
  by (simp add: Object_prototype_keys_def)

lemma getStatuteInfo_constructor: "getStatuteInfo ''constructor'' = Inherited ''constructor''"
  using getStatuteInfo_inherited [OF constructor_inherited] by simp

lemma rome7: "map_of INTERNATIONAL_STATUTES ''Rome Statute Article 7'' =
  Some \<lparr>organization = ''ICC'', article = ''Rome Statute Article 7'',
     description = ''Crimes against humanity: Widespread or systematic attacks against civilians, including murder, extermination, enslavement, deportation, imprisonment, torture, rape, persecution, enforced disappearance, apartheid, and other inhumane acts.'',
     severity = CRITICAL, jurisdiction = [''INTERNATIONAL'', ''ICC'']\<rparr>"
  by (simp add: INTERNATIONAL_STATUTES_def)

lemma infcirc540: "map_of INTERNATIONAL_STATUTES ''INFCIRC/540'' =
  Some \<lparr>organization = ''IAEA'', article = ''INFCIRC/540'',
     description = ''Breach of Additional Protocol: Failure to provide expanded information or access as required for verification of peaceful use of nuclear material.'',
     severity = HIGH, jurisdiction = [''INTERNATIONAL'', ''IAEA'']\<rparr>"
  by (simp add: INTERNATIONAL_STATUTES_def)

lemma records_store_violation: "records (store_violation v s) = (records s)(report_id v \<mapsto> v)"
  by (simp add: store_violation_def Let_def)

lemma records_store_violation_same: "records (store_violation v s) (report_id v) = Some v"
  by (simp add: records_store_violation)

lemma list_ids_store_violation: "list_ids (store_violation v s) = report_id v # list_ids s"
  by (simp add: store_violation_def Let_def list_ids_def)

lemma fetch_loop_eq: "fetch_loop s ids acc = acc @ List.map_filter (records s) ids"
  by (induction ids arbitrary: acc) (auto simp: List.map_filter_simps split: option.splits)

lemma fetch_violations_eq: "fetch_violations s = List.map_filter (records s) (list_ids s)"
  by (simp add: fetch_violations_def fetch_loop_eq)

lemma length_fetch_violations:
  "length (fetch_violations s) = length (filter (\<lambda>i. records s i \<noteq> None) (list_ids s))"
  by (simp add: fetch_violations_eq List.map_filter_def)

lemma set_fetch_violations: "set (fetch_violations s) \<subseteq> ran (records s)"
  by (auto simp: fetch_violations_eq List.map_filter_def ran_def)

lemma fetch_first_submission: "fetch_violations (store_violation v empty_kv) = [v]"
  by (simp add: fetch_violations_def list_ids_store_violation records_store_violation)
     (simp add: list_ids_def empty_kv_def)

section \<open>Submission\<close>

lemma submit_valid:
  assumes "map_of INTERNATIONAL_STATUTES st = Some info"
    and "st \<noteq> []" and "org \<noteq> []" and "content \<noteq> []"
  shows "submit e \<lparr>req_statute = Some st, responsible_organization = Some org,
            offending_content = Some content\<rparr> s =
         Inr (new_violation e st org content (Own info), Own info,
              store_violation (new_violation e st org content (Own info)) s)"
  using assms by (simp add: submit_def truthy_def or_default_def getStatuteInfo_own Let_def)

lemma submit_Inr:
  assumes "submit e body s = Inr (v, info, s')"
  shows "s' = store_violation v s \<and> report_id v = random_id e"
  using assms
  by (auto simp: submit_def Let_def new_violation_def split: if_splits)

lemma example_submit:
  "submit example_env example_request empty_kv =
     Inr (example_report, getStatuteInfo ''Rome Statute Article 7'', example_store)"
  using submit_valid [OF rome7, of "''TestAI''" "''x''" example_env empty_kv]
  by (simp add: example_request_def example_report_def example_store_def
      getStatuteInfo_own [OF rome7])

lemma later_submit:
  "submit later_env later_request example_store =
     Inr (later_report, getStatuteInfo ''INFCIRC/540'', later_store)"
  using submit_valid [OF infcirc540, of "''OtherAI''" "''y''" later_env example_store]
  by (simp add: later_request_def later_report_def later_store_def
      getStatuteInfo_own [OF infcirc540])

lemma example_report_fields:
  "report_id example_report = ''k3x9''"
  "timestamp example_report = 1000"
  "responsibleOrganization example_report = ''TestAI''"
  "v_severity (violation example_report) = Some CRITICAL"
  "v_jurisdiction (violation example_report) = Some [''INTERNATIONAL'', ''ICC'']"
  "conforms example_report"
  by (simp_all add: example_report_def example_env_def new_violation_def field_def conforms_def
      getStatuteInfo_own [OF rome7])

lemma later_report_fields:
  "report_id later_report = ''p07q''"
  "timestamp later_report = 2000"
  "responsibleOrganization later_report = ''OtherAI''"
  "v_severity (violation later_report) = Some HIGH"
  "v_jurisdiction (violation later_report) = Some [''INTERNATIONAL'', ''IAEA'']"
  "conforms later_report"
  by (simp_all add: later_report_def later_env_def new_violation_def field_def conforms_def
      getStatuteInfo_own [OF infcirc540])

lemma example_store_eq:
  "example_store =
     \<lparr>records = [''k3x9'' \<mapsto> example_report], violation_list = Some [''k3x9'']\<rparr>"
  by (simp add: example_store_def store_violation_def Let_def example_report_fields
      empty_kv_def list_ids_def)

lemma later_store_eq:
  "later_store =
     \<lparr>records = [''k3x9'' \<mapsto> example_report, ''p07q'' \<mapsto> later_report],
      violation_list = Some [''p07q'', ''k3x9'']\<rparr>"
  by (simp add: later_store_def store_violation_def Let_def later_report_fields
      example_store_eq list_ids_def)

lemma fetch_example_store: "fetch_violations example_store = [example_report]"
  by (simp add: example_store_eq fetch_violations_def list_ids_def)

lemma fetch_later_store: "fetch_violations later_store = [later_report, example_report]"
  by (simp add: later_store_eq fetch_violations_def list_ids_def)

lemma later_store_conforms: "\<forall>v \<in> ran (records later_store). conforms v"
  by (simp add: later_store_eq example_report_fields later_report_fields)

text \<open>
  Claim C7. A submission whose three inputs are non-empty and whose statute is an entry
  of the registry is accepted, and the record it returns carries the entry's description,
  severity and jurisdiction in \<open>violation\<close> and the three inputs in \<open>statute\<close>,
  \<open>responsibleOrganization\<close> and \<open>offendingContent\<close>. The REST answer names the record's
  identifier, the entry's severity and the entry's organization; the tool's answer is
  built from the same record.
\<close>

theorem submit_copies_registry_entry:
  assumes "map_of INTERNATIONAL_STATUTES st = Some info"
    and "st \<noteq> []" and "org \<noteq> []" and "content \<noteq> []"
  shows "\<exists>v s'. submit e \<lparr>req_statute = Some st, responsible_organization = Some org,
                     offending_content = Some content\<rparr> s = Inr (v, Own info, s') \<and>
           v_description (violation v) = Some (description info) \<and>
           v_severity (violation v) = Some (severity info) \<and>
           v_jurisdiction (violation v) = Some (jurisdiction info) \<and>
           statute v = st \<and> responsibleOrganization v = org \<and> offendingContent v = content \<and>
           api_report e (Some \<lparr>req_statute = Some st, responsible_organization = Some org,
                     offending_content = Some content\<rparr>) s =
             (Status 200 \<lparr>violationId = report_id v, severity_out = Some (severity info),
                organization_out = Some (organization info)\<rparr>, s') \<and>
           tools_call e now i
             (Some \<lparr>protocolVersion = pv, tool_name = Some ''report_violation'',
                    arguments = Some \<lparr>arg_statute = Some st,
                      arg_responsible_organization = Some org,
                      arg_offending_content = Some content,
                      arg_limit = l, arg_severity = sv\<rparr>\<rparr>) s =
             ((200, Json (Result i (Content
                 (ViolationReported v (Some (organization info))
                    (join_comma (jurisdiction info)))))), s')"
  using submit_valid [OF assms, of e s]
  by (simp add: new_violation_def field_def api_report_def tools_call_def truthy_def
      as_request_def)

text \<open>The theorem at the submission of \<open>Rome Statute Article 7\<close> by \<open>TestAI\<close>: the record is
  \<open>CRITICAL\<close> and the organization is \<open>ICC\<close>.\<close>

theorem submit_copies_registry_entry_witness:
  "\<exists>v s'. submit example_env
             \<lparr>req_statute = Some ''Rome Statute Article 7'',
              responsible_organization = Some ''TestAI'', offending_content = Some ''x''\<rparr> empty_kv =
             Inr (v, getStatuteInfo ''Rome Statute Article 7'', s') \<and>
           v_severity (violation v) = Some CRITICAL \<and>
           v_jurisdiction (violation v) = Some [''INTERNATIONAL'', ''ICC''] \<and>
           statute v = ''Rome Statute Article 7'' \<and> responsibleOrganization v = ''TestAI'' \<and>
           offendingContent v = ''x'' \<and>
           api_report example_env
             (Some \<lparr>req_statute = Some ''Rome Statute Article 7'',
                responsible_organization = Some ''TestAI'', offending_content = Some ''x''\<rparr>)
             empty_kv =
             (Status 200 \<lparr>violationId = report_id v, severity_out = Some CRITICAL,
                organization_out = Some ''ICC''\<rparr>, s')"
proof -
  have st: "''Rome Statute Article 7'' \<noteq> []" and org: "''TestAI'' \<noteq> []"
    and content: "''x'' \<noteq> []"
    by simp_all
  from submit_copies_registry_entry [OF rome7 st org content, of example_env empty_kv]
  show ?thesis
    by (simp add: getStatuteInfo_own [OF rome7]) blast
qed

text \<open>
  Claim C8. Round trip: when a submission returns the record \<open>v\<close>, reading
  \<open>GET /api/violations/:id\<close> with the identifier of \<open>v\<close> from the state the submission
  left answers 200 with \<open>v\<close> itself; the identifier is the one the REST answer of the
  submission names.
\<close>

theorem getById_after_submit:
  assumes "submit e body s = Inr (v, info, s')"
  shows "api_violation_by_id (report_id v) s' = Status 200 v \<and>
         (\<exists>r. api_report e (Some body) s = (Status 200 r, s') \<and> violationId r = report_id v)"
  using assms submit_Inr [OF assms]
  by (simp add: api_violation_by_id_def records_store_violation api_report_def)

theorem getById_after_submit_witness:
  "api_violation_by_id ''k3x9'' example_store = Status 200 example_report"
  using getById_after_submit [OF example_submit]
  by (simp add: example_report_fields)

section \<open>Unknown statutes\<close>

text \<open>A submission that names an inherited member as its statute passes both checks.\<close>

lemma submit_inherited:
  assumes "k \<in> set Object_prototype_keys" and "org \<noteq> []" and "content \<noteq> []"
  shows "submit e \<lparr>req_statute = Some k, responsible_organization = Some org,
             offending_content = Some content\<rparr> s =
   Inr (new_violation e k org content (Inherited k), Inherited k,
        store_violation (new_violation e k org content (Inherited k)) s)"
proof -
  from assms(1) have "k \<noteq> []"
    by (auto simp: Object_prototype_keys_def)
  with assms getStatuteInfo_inherited [OF assms(1)] show ?thesis
    by (simp add: submit_def truthy_def or_default_def Let_def)
qed

text \<open>
  Claim C1 says that every statute string without an entry in the registry is refused
  and nothing is written. The string \<open>constructor\<close> has no entry, yet the lookup finds
  the member that the registry object inherits, which is truthy, so the check for an
  unknown statute passes: the REST handler answers 200 with neither severity nor
  organization, the tool answers with the internal error -32603 raised while its text is
  built, and on both transports the record has been written and its identifier put in
  front of the index.
\<close>

theorem inherited_name_passes_statute_check:
  "map_of INTERNATIONAL_STATUTES ''constructor'' = None \<and>
   api_report e
     (Some \<lparr>req_statute = Some ''constructor'', responsible_organization = Some ''TestAI'',
            offending_content = Some ''x''\<rparr>) s =
     (Status 200 \<lparr>violationId = random_id e, severity_out = None, organization_out = None\<rparr>,
      store_violation (new_violation e ''constructor'' ''TestAI'' ''x'' (Inherited ''constructor'')) s) \<and>
   tools_call e now i
     (Some \<lparr>protocolVersion = None, tool_name = Some ''report_violation'',
            arguments = Some \<lparr>arg_statute = Some ''constructor'',
              arg_responsible_organization = Some ''TestAI'', arg_offending_content = Some ''x'',
              arg_limit = None, arg_severity = None\<rparr>\<rparr>) s =
     ((500, Json (Error IdNull (- 32603) (Internal (TypeError ''violation.violation.jurisdiction'')))),
      store_violation (new_violation e ''constructor'' ''TestAI'' ''x'' (Inherited ''constructor'')) s) \<and>
   list_ids (store_violation (new_violation e ''constructor'' ''TestAI'' ''x'' (Inherited ''constructor'')) s) =
     random_id e # list_ids s \<and>
   records (store_violation (new_violation e ''constructor'' ''TestAI'' ''x'' (Inherited ''constructor'')) s)
     (random_id e) =
     Some (new_violation e ''constructor'' ''TestAI'' ''x'' (Inherited ''constructor''))"
proof -
  let ?v = "new_violation e ''constructor'' ''TestAI'' ''x'' (Inherited ''constructor'')"
  have id: "report_id ?v = random_id e"
    by (simp add: new_violation_def)
  have none: "map_of INTERNATIONAL_STATUTES ''constructor'' = None"
    using getStatuteInfo_inherited [OF constructor_inherited] by simp
  have sub: "submit e \<lparr>req_statute = Some ''constructor'',
        responsible_organization = Some ''TestAI'', offending_content = Some ''x''\<rparr> s =
      Inr (?v, Inherited ''constructor'', store_violation ?v s)"
    using submit_inherited [OF constructor_inherited, of "''TestAI''" "''x''" e s] by simp
  have rest: "api_report e
     (Some \<lparr>req_statute = Some ''constructor'', responsible_organization = Some ''TestAI'',
            offending_content = Some ''x''\<rparr>) s =
     (Status 200 \<lparr>violationId = random_id e, severity_out = None, organization_out = None\<rparr>,
      store_violation ?v s)"
    by (simp add: api_report_def sub) (simp add: new_violation_def field_def)
  have mcp: "tools_call e now i
     (Some \<lparr>protocolVersion = None, tool_name = Some ''report_violation'',
            arguments = Some \<lparr>arg_statute = Some ''constructor'',
              arg_responsible_organization = Some ''TestAI'', arg_offending_content = Some ''x'',
              arg_limit = None, arg_severity = None\<rparr>\<rparr>) s =
     ((500, Json (Error IdNull (- 32603) (Internal (TypeError ''violation.violation.jurisdiction'')))),
      store_violation ?v s)"
    by (simp add: tools_call_def truthy_def as_request_def sub)
       (simp add: new_violation_def field_def internal_error_def)
  have ids: "list_ids (store_violation ?v s) = random_id e # list_ids s"
    using list_ids_store_violation [of ?v s] id by simp
  have rec: "records (store_violation ?v s) (random_id e) = Some ?v"
    using records_store_violation_same [of ?v s] id by simp
  from none rest mcp ids rec show ?thesis by blast
qed

text \<open>The record written for such a name has none of the three copied fields, and
  \<open>GET /api/stats\<close> throws on it.\<close>

lemma stats_after_inherited_name:
  "api_stats now
     (store_violation (new_violation e ''constructor'' ''TestAI'' ''x'' (Inherited ''constructor''))
        empty_kv) =
   Inl (TypeError ''v.violation.jurisdiction'')"
  by (simp add: api_stats_def fetch_first_submission) (simp add: new_violation_def field_def)

text \<open>A statute that is neither an entry of the registry nor a name inherited from
  \<open>Object.prototype\<close> is refused on both transports, with the statute in the message, and
  the store is left as it was.\<close>

lemma unknown_statute_is_refused:
  assumes "map_of INTERNATIONAL_STATUTES st = None" and "st \<notin> set Object_prototype_keys"
    and "st \<noteq> []" and "org \<noteq> []" and "content \<noteq> []"
  shows "api_report e
           (Some \<lparr>req_statute = Some st, responsible_organization = Some org,
                  offending_content = Some content\<rparr>) s =
           (Failure 400 (''Unknown statute: '' @ st @
              ''. Please use a valid international law statute.''), s) \<and>
         tools_call e now i
           (Some \<lparr>protocolVersion = pv, tool_name = Some ''report_violation'',
                  arguments = Some \<lparr>arg_statute = Some st,
                    arg_responsible_organization = Some org, arg_offending_content = Some content,
                    arg_limit = l, arg_severity = sv\<rparr>\<rparr>) s =
           ((400, Json (Error i (- 32602) (Message (''Unknown statute: '' @ st @
              ''. Use list_statutes tool to see available statutes.'')))), s)"
proof -
  have "submit e \<lparr>req_statute = Some st, responsible_organization = Some org,
                  offending_content = Some content\<rparr> s = Inl (UnknownStatute st)"
    using assms by (simp add: submit_def truthy_def or_default_def getStatuteInfo_def js_get_def)
  then show ?thesis
    by (simp add: api_report_def tools_call_def truthy_def as_request_def)
qed

section \<open>Validation\<close>

text \<open>
  Claim C6 says that a submission with a required input empty or absent fails with a
  validation error (400, -32602) and writes nothing. A \<open>tools/call\<close> of
  \<open>report_violation\<close> that carries no \<open>arguments\<close> has all three inputs absent; reading them
  from \<open>undefined\<close> throws before the validation, and the answer is the internal error
  -32603 with status 500. Nothing is written.
\<close>

theorem missing_arguments_is_internal_error:
  "mcp_post e now accept
     \<lparr>jsonrpc = Some ''2.0'', rpc_method = Some ''tools/call'', request_id = Some (IdNumber 1),
      params = Some \<lparr>protocolVersion = None, tool_name = Some ''report_violation'',
                     arguments = None\<rparr>\<rparr> s =
     ((500, Json (Error IdNull (- 32603) (Internal (TypeError ''args'')))), s)"
  by (simp add: mcp_post_def truthy_def or_default_def tools_call_def internal_error_def)

theorem missing_arguments_is_internal_error_witness:
  "mcp_post example_env 5000 (Some ''application/json'')
     \<lparr>jsonrpc = Some ''2.0'', rpc_method = Some ''tools/call'', request_id = Some (IdNumber 1),
      params = Some \<lparr>protocolVersion = None, tool_name = Some ''report_violation'',
                     arguments = None\<rparr>\<rparr> example_store =
     ((500, Json (Error IdNull (- 32603) (Internal (TypeError ''args'')))), example_store)"
  by (rule missing_arguments_is_internal_error)

text \<open>With a body, or with an \<open>arguments\<close> object, a missing or empty input is refused with
  status 400 (code -32602 on the tool-call transport) and the store is left as it was.\<close>

lemma missing_field_is_refused:
  assumes "\<not> truthy (req_statute b) \<or> \<not> truthy (responsible_organization b) \<or>
           \<not> truthy (offending_content b)"
  shows "api_report e (Some b) s =
           (Failure 400
              ''Missing required fields: statute, responsible_organization, offending_content'', s) \<and>
         api_report e None s = (Failure 400 ''Invalid request format'', s) \<and>
         (as_request a = b \<longrightarrow>
          tools_call e now i
            (Some \<lparr>protocolVersion = pv, tool_name = Some ''report_violation'',
                   arguments = Some a\<rparr>) s =
            ((400, Json (Error i (- 32602) (Message
               ''Missing required fields: statute, responsible_organization, offending_content''))),
             s))"
proof -
  have "submit e b s = Inl MissingFields"
    using assms by (auto simp: submit_def)
  then show ?thesis
    by (simp add: api_report_def tools_call_def truthy_def)
qed

section \<open>The event-stream framing\<close>

lemma tools_call_is_json:
  "snd (fst (tools_call e now i ps s)) \<noteq> EventStream frames"
  by (auto simp: tools_call_def internal_error_def Let_def
      split: option.splits sum.splits submit_error.splits prod.splits)

text \<open>
  Claim C3 says that a caller who accepts an event stream gets every answer, those of
  \<open>tools/call\<close> included, as one frame of an event stream. The case \<open>tools/call\<close> answers
  with \<open>c.json\<close> whatever the \<open>Accept\<close> header says: the call of \<open>list_statutes\<close> below is
  answered with a JSON body, and no call of a tool is ever answered with an event stream.
\<close>

theorem tools_call_ignores_event_stream:
  "wants_stream (Some ''application/json, text/event-stream'') \<and>
   mcp_post e now (Some ''application/json, text/event-stream'')
     \<lparr>jsonrpc = Some ''2.0'', rpc_method = Some ''tools/call'', request_id = Some (IdNumber 1),
      params = Some \<lparr>protocolVersion = None, tool_name = Some ''list_statutes'',
                     arguments = None\<rparr>\<rparr> s =
     ((200, Json (Result (IdNumber 1) (Content (StatutesListed getAllStatutes)))), s) \<and>
   snd (fst (mcp_post e now (Some ''application/json, text/event-stream'')
     \<lparr>jsonrpc = Some ''2.0'', rpc_method = Some ''tools/call'', request_id = Some i,
      params = ps\<rparr> s)) \<noteq> EventStream frames"
  by (simp add: wants_stream_def mcp_post_def truthy_def or_default_def tools_call_is_json)
     (simp add: tools_call_def truthy_def)

theorem tools_call_ignores_event_stream_witness:
  "mcp_post example_env 5000 (Some ''application/json, text/event-stream'')
     \<lparr>jsonrpc = Some ''2.0'', rpc_method = Some ''tools/call'', request_id = Some (IdNumber 1),
      params = Some \<lparr>protocolVersion = None, tool_name = Some ''list_statutes'',
                     arguments = None\<rparr>\<rparr> empty_kv =
     ((200, Json (Result (IdNumber 1) (Content (StatutesListed getAllStatutes)))), empty_kv)"
  using tools_call_ignores_event_stream [of example_env 5000 empty_kv]
  by simp

text \<open>The answers to \<open>initialize\<close>, to \<open>tools/list\<close> and to an envelope that is not
  JSON-RPC 2.0 are one \<open>message\<close> frame when the caller accepts an event stream.\<close>

lemma stream_answers_are_one_frame:
  assumes "wants_stream accept"
  shows "mcp_post e now accept
           \<lparr>jsonrpc = Some ''2.0'', rpc_method = Some ''initialize'', request_id = Some i,
            params = ps\<rparr> s =
           ((200, EventStream [(''message'', Result i (Initialized
               (or_default (case ps of None \<Rightarrow> None | Some p \<Rightarrow> protocolVersion p)
                  ''2024-11-05'')))]), s) \<and>
         mcp_post e now accept
           \<lparr>jsonrpc = Some ''2.0'', rpc_method = Some ''tools/list'', request_id = Some i,
            params = ps\<rparr> s =
           ((200, EventStream [(''message'',
               Result i (Tools [''report_violation'', ''list_statutes'']))]), s) \<and>
         mcp_post e now accept
           \<lparr>jsonrpc = None, rpc_method = m, request_id = j, params = ps\<rparr> s =
           ((200, EventStream [(''message'', Error (id_or_null j) (- 32600)
               (Message ''Invalid Request - must be JSON-RPC 2.0 format''))]), s)"
  using assms
  by (simp add: mcp_post_def truthy_def or_default_def sendMcpResponse_def)

section \<open>Rounding to a double\<close>

lemma exponent_small: "m < 2 ^ 53 \<Longrightarrow> exponent m = 0"
  by (simp add: exponent.simps)

lemma exponent_large: "\<not> m < 2 ^ 53 \<Longrightarrow> exponent m = Suc (exponent (m div 2))"
  by (subst exponent.simps) simp

lemma exponent_upper: "m div 2 ^ exponent m < 2 ^ 53"
proof (induction m rule: exponent.induct)
  case (1 m)
  show ?case
  proof (cases "m < 2 ^ 53")
    case True
    then show ?thesis by (simp add: exponent_small)
  next
    case False
    have "m div 2 ^ Suc (exponent (m div 2)) = (m div 2) div 2 ^ exponent (m div 2)"
      by (simp add: div_mult2_eq)
    with False "1.IH" show ?thesis by (simp add: exponent_large)
  qed
qed

lemma exponent_lower: "2 ^ 53 \<le> m \<Longrightarrow> 2 ^ 52 \<le> m div 2 ^ exponent m"
proof (induction m rule: exponent.induct)
  case (1 m)
  from "1.prems" have large: "\<not> m < 2 ^ 53" by simp
  have split: "m div 2 ^ Suc (exponent (m div 2)) = (m div 2) div 2 ^ exponent (m div 2)"
    by (simp add: div_mult2_eq)
  show ?case
  proof (cases "m div 2 < 2 ^ 53")
    case True
    from "1.prems" have "(2::nat) ^ 52 \<le> m div 2" by simp
    with True large split show ?thesis
      by (simp add: exponent_large exponent_small)
  next
    case False
    then have "(2::nat) ^ 53 \<le> m div 2" by simp
    from "1.IH" [OF large this] large split show ?thesis
      by (simp add: exponent_large)
  qed
qed

lemma exponent_scaled:
  assumes "2 ^ 52 \<le> c" and "c < 2 ^ 53"
  shows "exponent (c * 2 ^ e) = e"
proof (induction e)
  case 0
  with assms show ?case by (simp add: exponent_small)
next
  case (Suc e)
  from assms(1) have "(2::nat) ^ 53 \<le> c * 2" by simp
  also have "c * 2 \<le> c * 2 ^ Suc e" by simp
  finally have "\<not> c * 2 ^ Suc e < 2 ^ 53" by simp
  moreover have "c * 2 ^ Suc e div 2 = c * 2 ^ e" by simp
  ultimately show ?case using Suc by (simp add: exponent_large)
qed

lemma round_nat_small: "m < 2 ^ 53 \<Longrightarrow> round_nat m = m"
  by (simp add: round_nat_def)

lemma round_nat_scaled:
  assumes "2 ^ 52 \<le> c" and "c < 2 ^ 53"
  shows "round_nat (c * 2 ^ e) = c * 2 ^ e"
proof (cases "c * 2 ^ e < 2 ^ 53")
  case True
  then show ?thesis by (rule round_nat_small)
next
  case False
  have "e \<noteq> 0" using False assms(2) by (cases e) auto
  then have "(0::nat) < 2 ^ (e - 1)" by simp
  with False show ?thesis
    by (simp add: round_nat_def exponent_scaled [OF assms] Let_def)
qed

lemma round_nat_cases:
  assumes "2 ^ 53 \<le> m"
  shows "round_nat m = (m div 2 ^ exponent m) * 2 ^ exponent m \<or>
         round_nat m = (m div 2 ^ exponent m + 1) * 2 ^ exponent m"
proof -
  have either: "(if c then a else b) * k = b * k \<or> (if c then a else b) * k = a * k"
    for c and a b k :: nat
    by (cases c) simp_all
  from assms have "\<not> m < 2 ^ 53" by simp
  then show ?thesis
    unfolding round_nat_def Let_def by (simp only: if_False) (rule either)
qed

lemma round_nat_shape:
  assumes "2 ^ 53 \<le> m"
  shows "\<exists>c e. 2 ^ 52 \<le> c \<and> c < 2 ^ 53 \<and> e \<noteq> 0 \<and> round_nat m = c * 2 ^ e"
proof -
  define e where "e = exponent m"
  define q where "q = m div 2 ^ e"
  from assms have e: "e \<noteq> 0" by (simp add: e_def exponent_large)
  have up: "q < 2 ^ 53" unfolding q_def e_def by (rule exponent_upper)
  have low: "2 ^ 52 \<le> q" unfolding q_def e_def using assms by (rule exponent_lower)
  from round_nat_cases [OF assms] have "round_nat m = q * 2 ^ e \<or> round_nat m = (q + 1) * 2 ^ e"
    by (simp only: q_def e_def)
  then show ?thesis
  proof
    assume "round_nat m = q * 2 ^ e"
    with e up low show ?thesis by blast
  next
    assume r: "round_nat m = (q + 1) * 2 ^ e"
    show ?thesis
    proof (cases "q + 1 < 2 ^ 53")
      case True
      from low have "2 ^ 52 \<le> q + 1" by simp
      with True r e show ?thesis by blast
    next
      case False
      with up have "q + 1 = 2 ^ 52 * 2" by simp
      with r have "round_nat m = 2 ^ 52 * 2 ^ Suc e" by (simp only: power_Suc mult.assoc)
      moreover have "(2::nat) ^ 52 \<le> 2 ^ 52" and "(2::nat) ^ 52 < 2 ^ 53" and "Suc e \<noteq> 0"
        by simp_all
      ultimately show ?thesis by blast
    qed
  qed
qed

lemma round_nat_large: "2 ^ 53 \<le> m \<Longrightarrow> 2 ^ 53 \<le> round_nat m"
proof -
  assume "2 ^ 53 \<le> m"
  from round_nat_shape [OF this] obtain c e where
    c: "2 ^ 52 \<le> c" and e: "e \<noteq> 0" and r: "round_nat m = c * 2 ^ e"
    by blast
  from e have "(2::nat) \<le> 2 ^ e" by (cases e) simp_all
  with c have "(2::nat) ^ 52 * 2 \<le> c * 2 ^ e" by (rule mult_le_mono)
  with r show ?thesis by simp
qed

lemma round_nat_idem: "round_nat (round_nat m) = round_nat m"
proof (cases "m < 2 ^ 53")
  case True
  then show ?thesis by (simp add: round_nat_small)
next
  case False
  then have "2 ^ 53 \<le> m" by simp
  from round_nat_shape [OF this] obtain c e where
    "2 ^ 52 \<le> c" and "c < 2 ^ 53" and "round_nat m = c * 2 ^ e"
    by blast
  then show ?thesis by (simp add: round_nat_scaled)
qed

lemma double_limit_large: "2 ^ 53 < double_limit"
  unfolding double_limit_def by (rule power_strict_increasing) simp_all

lemma round_double_small: "\<bar>n\<bar> < 2 ^ 53 \<Longrightarrow> round_double n = Num n"
proof -
  assume a: "\<bar>n\<bar> < 2 ^ 53"
  then have small: "nat \<bar>n\<bar> < 2 ^ 53" by (simp add: nat_less_iff)
  with double_limit_large have "\<not> double_limit \<le> nat \<bar>n\<bar>" by simp
  with small show ?thesis
    by (simp add: round_double_def round_nat_small Let_def)
qed

lemma round_double_idem:
  assumes "round_double n = Num k"
  shows "round_double k = Num k"
proof -
  let ?v = "round_nat (nat \<bar>n\<bar>)"
  from assms have fin: "\<not> double_limit \<le> ?v" and k: "k = (if n < 0 then - int ?v else int ?v)"
    by (auto simp: round_double_def Let_def split: if_splits)
  from k have abs: "nat \<bar>k\<bar> = ?v" by (simp split: if_splits)
  have idem: "round_nat (nat \<bar>k\<bar>) = ?v" by (simp add: abs round_nat_idem)
  show ?thesis
  proof (cases "k < 0")
    case True
    with k have "k = - int ?v" by (simp split: if_splits)
    with True fin idem show ?thesis by (simp add: round_double_def Let_def)
  next
    case False
    with k have "k = int ?v" by (simp split: if_splits)
    with False fin idem show ?thesis by (simp add: round_double_def Let_def)
  qed
qed

lemma parseInt_idem: "parseInt s = Num k \<Longrightarrow> round_double k = Num k"
  by (auto simp: parseInt_def Let_def split: option.splits intro: round_double_idem)

lemma round_double_clamp:
  assumes "0 \<le> a" and "n < 2 ^ 53"
  shows "relative_index (round_double a) n = min (nat a) n \<and>
         num_less (round_double a) (Num (int n)) = (a < int n)"
proof (cases "a < 2 ^ 53")
  case True
  with assms(1) have "round_double a = Num a"
    by (intro round_double_small) simp
  with assms(1) show ?thesis by auto
next
  case False
  with assms(1) have big: "2 ^ 53 \<le> nat \<bar>a\<bar>" by (simp add: le_nat_iff)
  from round_nat_large [OF big] have r: "2 ^ 53 \<le> round_nat (nat \<bar>a\<bar>)" .
  from False assms(2) have less: "\<not> a < int n" by simp
  from False assms have m: "min (nat a) n = n" by simp
  show ?thesis
  proof (cases "double_limit \<le> round_nat (nat \<bar>a\<bar>)")
    case True
    with assms(1) have "round_double a = PosInfinity"
      by (simp add: round_double_def Let_def)
    with less m show ?thesis by simp
  next
    case False
    with assms(1) have "round_double a = Num (int (round_nat (nat \<bar>a\<bar>)))"
      by (simp add: round_double_def Let_def)
    moreover from r assms(2) have "n \<le> round_nat (nat \<bar>a\<bar>)" by simp
    ultimately show ?thesis using less m by simp
  qed
qed

section \<open>Queries\<close>

lemma count_jurisdiction_total:
  "\<forall>v \<in> set vs. v_jurisdiction (violation v) \<noteq> None \<Longrightarrow> \<exists>m. count_jurisdiction acc vs = Inr m"
  by (induction vs arbitrary: acc) auto

lemma filter_jurisdiction_eq:
  "\<forall>v \<in> set vs. v_jurisdiction (violation v) \<noteq> None \<Longrightarrow>
   filter_jurisdiction j vs =
     Inr (filter (\<lambda>v. case v_jurisdiction (violation v) of None \<Rightarrow> False | Some js \<Rightarrow> j \<in> set js) vs)"
  by (induction vs) auto

lemma dangling_shortens:
  "\<exists>i \<in> set ids. m i = None \<Longrightarrow> length (filter (\<lambda>i. m i \<noteq> None) ids) < length ids"
proof -
  assume "\<exists>i \<in> set ids. m i = None"
  then obtain i where "i \<in> set ids" and "\<not> (m i \<noteq> None)" by auto
  then show ?thesis by (rule length_filter_less)
qed

lemma malformed_report_fields:
  "report_id malformed_report = ''k3x9''"
  "v_severity (violation malformed_report) = None"
  "v_jurisdiction (violation malformed_report) = None"
  by (simp_all add: malformed_report_def example_env_def new_violation_def field_def
      getStatuteInfo_constructor)

lemma malformed_store_eq:
  "malformed_store =
     \<lparr>records = [''k3x9'' \<mapsto> malformed_report], violation_list = Some [''k3x9'', ''gone'']\<rparr>"
  by (simp add: malformed_store_def store_violation_def Let_def malformed_report_fields
      empty_kv_def)

lemma fetch_malformed_store: "fetch_violations malformed_store = [malformed_report]"
  by (simp add: malformed_store_eq fetch_violations_def list_ids_def)

text \<open>
  Claim C9 says that in every store state whose index names an identifier without a
  record, the query and the statistics do not fail. The REST handler answers 200 to a
  report with the statute \<open>constructor\<close> and stores a record that has no jurisdiction
  list. In the state that holds this record and whose index also names \<open>gone\<close>, which has
  no record, \<open>GET /api/stats\<close> throws, and so does the query with a jurisdiction filter.
\<close>

theorem malformed_record_counterexample:
  "api_report example_env
     (Some \<lparr>req_statute = Some ''constructor'', responsible_organization = Some ''TestAI'',
            offending_content = Some ''x''\<rparr>) empty_kv =
     (Status 200 \<lparr>violationId = ''k3x9'', severity_out = None, organization_out = None\<rparr>,
      store_violation malformed_report empty_kv) \<and>
   list_ids malformed_store = [''k3x9'', ''gone''] \<and>
   records malformed_store ''k3x9'' = Some malformed_report \<and>
   records malformed_store ''gone'' = None \<and>
   api_stats 5000 malformed_store = Inl (TypeError ''v.violation.jurisdiction'') \<and>
   api_violations
     \<lparr>limit_q = None, offset_q = None, severity_q = None, jurisdiction_q = Some ''ICC''\<rparr>
     malformed_store = Inl (TypeError ''v.violation.jurisdiction'')"
proof -
  have sub: "submit example_env
      \<lparr>req_statute = Some ''constructor'', responsible_organization = Some ''TestAI'',
       offending_content = Some ''x''\<rparr> empty_kv =
      Inr (malformed_report, Inherited ''constructor'', store_violation malformed_report empty_kv)"
    using submit_inherited [OF constructor_inherited, of "''TestAI''" "''x''" example_env empty_kv]
    by (simp add: malformed_report_def getStatuteInfo_constructor)
  have a: "api_report example_env
     (Some \<lparr>req_statute = Some ''constructor'', responsible_organization = Some ''TestAI'',
            offending_content = Some ''x''\<rparr>) empty_kv =
     (Status 200 \<lparr>violationId = ''k3x9'', severity_out = None, organization_out = None\<rparr>,
      store_violation malformed_report empty_kv)"
    by (simp add: api_report_def sub malformed_report_fields field_def)
  have b: "list_ids malformed_store = [''k3x9'', ''gone'']"
    and c: "records malformed_store ''k3x9'' = Some malformed_report"
    and d: "records malformed_store ''gone'' = None"
    by (simp_all add: malformed_store_eq list_ids_def)
  have e: "api_stats 5000 malformed_store = Inl (TypeError ''v.violation.jurisdiction'')"
    by (simp add: api_stats_def fetch_malformed_store malformed_report_fields)
  have f: "api_violations
     \<lparr>limit_q = None, offset_q = None, severity_q = None, jurisdiction_q = Some ''ICC''\<rparr>
     malformed_store = Inl (TypeError ''v.violation.jurisdiction'')"
    by (simp add: api_violations_def Let_def truthy_def or_default_def fetch_malformed_store
        malformed_report_fields)
  from a b c d e f show ?thesis by simp
qed

text \<open>
  Claim C9, amended. In every store state, whatever the index holds, a query without a
  jurisdiction filter answers, and the total of an unfiltered query is the number of
  identifiers of the index that have a record: an identifier without a record is
  skipped, and that number is smaller than the length of the index when some identifier
  has none. When every fetched record carries its jurisdiction list, as every record of
  the shape \<open>ViolationReport\<close> does, the statistics answer too, with that number as total,
  and so does the query with a jurisdiction filter.
\<close>

theorem dangling_entries_are_skipped:
  "(\<exists>p. api_violations (q\<lparr>jurisdiction_q := None\<rparr>) s = Inr p) \<and>
   (\<exists>p. api_violations (q\<lparr>severity_q := None, jurisdiction_q := None\<rparr>) s = Inr p \<and>
        total p = length (filter (\<lambda>i. records s i \<noteq> None) (list_ids s))) \<and>
   ((\<exists>i \<in> set (list_ids s). records s i = None) \<longrightarrow>
      length (filter (\<lambda>i. records s i \<noteq> None) (list_ids s)) < length (list_ids s)) \<and>
   ((\<forall>v \<in> set (fetch_violations s). v_jurisdiction (violation v) \<noteq> None) \<longrightarrow>
      (\<exists>st. api_stats now s = Inr st \<and>
            stats_total st = length (filter (\<lambda>i. records s i \<noteq> None) (list_ids s))) \<and>
      (\<exists>p. api_violations q s = Inr p))"
proof (intro conjI impI)
  show "\<exists>p. api_violations (q\<lparr>jurisdiction_q := None\<rparr>) s = Inr p"
    by (simp add: api_violations_def Let_def truthy_def)
  show "\<exists>p. api_violations (q\<lparr>severity_q := None, jurisdiction_q := None\<rparr>) s = Inr p \<and>
        total p = length (filter (\<lambda>i. records s i \<noteq> None) (list_ids s))"
    by (simp add: api_violations_def Let_def truthy_def length_fetch_violations)
  show "length (filter (\<lambda>i. records s i \<noteq> None) (list_ids s)) < length (list_ids s)"
    if "\<exists>i \<in> set (list_ids s). records s i = None"
    using that by (rule dangling_shortens)
next
  assume jur: "\<forall>v \<in> set (fetch_violations s). v_jurisdiction (violation v) \<noteq> None"
  obtain m where m: "count_jurisdiction Map.empty (fetch_violations s) = Inr m"
    using count_jurisdiction_total [OF jur] by blast
  show "\<exists>st. api_stats now s = Inr st \<and>
          stats_total st = length (filter (\<lambda>i. records s i \<noteq> None) (list_ids s))"
    by (simp add: api_stats_def m length_fetch_violations Let_def)
  have jur': "\<forall>v \<in> set (filter_severity x (fetch_violations s)).
      v_jurisdiction (violation v) \<noteq> None" for x
    using jur by (simp add: filter_severity_def)
  show "\<exists>p. api_violations q s = Inr p"
    by (simp add: api_violations_def Let_def filter_jurisdiction_eq [OF jur]
        filter_jurisdiction_eq [OF jur'])
qed

text \<open>The theorem at a store whose index names \<open>gone\<close>, which has no record, between two
  identifiers that have one.\<close>

theorem dangling_entries_are_skipped_witness:
  "list_ids dangling_store = [''p07q'', ''gone'', ''k3x9''] \<and>
   records dangling_store ''gone'' = None \<and>
   (\<exists>st. api_stats 5000 dangling_store = Inr st \<and> stats_total st = 2) \<and>
   (\<exists>p. api_violations
          \<lparr>limit_q = None, offset_q = None, severity_q = None, jurisdiction_q = None\<rparr>
          dangling_store = Inr p \<and> total p = 2) \<and>
   (\<exists>p. api_violations
          \<lparr>limit_q = None, offset_q = None, severity_q = None, jurisdiction_q = Some ''ICC''\<rparr>
          dangling_store = Inr p)"
proof -
  have recs: "records dangling_store = [''k3x9'' \<mapsto> example_report, ''p07q'' \<mapsto> later_report]"
    and ids: "list_ids dangling_store = [''p07q'', ''gone'', ''k3x9'']"
    by (simp_all add: dangling_store_def later_store_eq list_ids_def)
  have fetched: "fetch_violations dangling_store = [later_report, example_report]"
    by (simp add: fetch_violations_def ids recs)
  have jur: "\<forall>v \<in> set (fetch_violations dangling_store). v_jurisdiction (violation v) \<noteq> None"
    by (simp add: fetched example_report_fields later_report_fields)
  have n: "length (filter (\<lambda>i. records dangling_store i \<noteq> None) (list_ids dangling_store)) = 2"
    by (simp add: recs ids)
  have plain: "\<lparr>limit_q = None, offset_q = None, severity_q = None,
        jurisdiction_q = Some ''ICC''\<rparr>\<lparr>severity_q := None, jurisdiction_q := None\<rparr> =
      \<lparr>limit_q = None, offset_q = None, severity_q = None, jurisdiction_q = None\<rparr>"
    by simp
  from dangling_entries_are_skipped [of
      "\<lparr>limit_q = None, offset_q = None, severity_q = None, jurisdiction_q = Some ''ICC''\<rparr>"
      dangling_store 5000] jur
  show ?thesis
    by (simp add: n ids recs eval_nat_numeral)
qed

lemma parseInt_empty: "parseInt [] = NaN"
  by (simp add: parseInt_def)

lemma parseInt_zero: "parseInt ''0'' = Num 0"
  by (simp add: parseInt_def white_prefix_def digit_value_def round_double_small)

lemma parseInt_examples:
  "parseInt ''50'' = Num 50" "parseInt ''5'' = Num 5" "parseInt ''-1'' = Num (- 1)"
  "parseInt ''1'' = Num 1" "parseInt ''2'' = Num 2"
  by (simp_all add: parseInt_def white_prefix_def digit_value_def round_double_small)

text \<open>
  Claim C10. A request without \<open>limit\<close> is answered as the request with \<open>limit=50\<close>, a
  request without \<open>offset\<close> as the request with \<open>offset=0\<close>, and the total of an answer is
  the same whatever \<open>limit\<close> and \<open>offset\<close> are.
\<close>

theorem default_limit_and_offset:
  "api_violations (q\<lparr>limit_q := None\<rparr>) s = api_violations (q\<lparr>limit_q := Some ''50''\<rparr>) s \<and>
   api_violations (q\<lparr>offset_q := None\<rparr>) s = api_violations (q\<lparr>offset_q := Some ''0''\<rparr>) s \<and>
   parseInt ''50'' = Num 50 \<and> parseInt ''0'' = Num 0 \<and>
   map_sum id total (api_violations (q\<lparr>limit_q := l, offset_q := off\<rparr>) s) =
     map_sum id total (api_violations q s)"
proof -
  have a: "api_violations (q\<lparr>limit_q := None\<rparr>) s = api_violations (q\<lparr>limit_q := Some ''50''\<rparr>) s"
    by (simp add: api_violations_def or_default_def Let_def)
  have b: "api_violations (q\<lparr>offset_q := None\<rparr>) s = api_violations (q\<lparr>offset_q := Some ''0''\<rparr>) s"
    by (simp add: api_violations_def or_default_def Let_def)
  have c: "parseInt ''50'' = Num 50" "parseInt ''0'' = Num 0"
    by (simp_all add: parseInt_examples parseInt_zero)
  have d: "map_sum id total (api_violations (q\<lparr>limit_q := l, offset_q := off\<rparr>) s) =
     map_sum id total (api_violations q s)"
    by (simp add: api_violations_def Let_def split: sum.splits)
  from a b c d show ?thesis by simp
qed

subsection \<open>The page of a query\<close>

lemma interval_slice_take:
  "lo \<le> pos \<Longrightarrow> interval_slice xs pos lo hi = take (nat (hi - pos)) xs"
proof (induction xs arbitrary: pos)
  case Nil
  then show ?case by simp
next
  case (Cons x xs)
  have ih: "interval_slice xs (pos + 1) lo hi = take (nat (hi - (pos + 1))) xs"
    using Cons.prems by (intro Cons.IH) simp
  show ?case
  proof (cases "pos < hi")
    case True
    then have "nat (hi - pos) = Suc (nat (hi - (pos + 1)))" by simp
    with True Cons.prems ih show ?thesis by simp
  next
    case False
    with Cons.prems ih show ?thesis by simp
  qed
qed

lemma interval_slice_drop:
  "pos \<le> lo \<Longrightarrow> interval_slice xs pos lo hi = interval_slice (drop (nat (lo - pos)) xs) lo lo hi"
proof (induction xs arbitrary: pos)
  case Nil
  then show ?case by simp
next
  case (Cons x xs)
  show ?case
  proof (cases "pos = lo")
    case True
    then show ?thesis by simp
  next
    case False
    with Cons.prems have lt: "pos < lo" by simp
    then have "nat (lo - pos) = Suc (nat (lo - (pos + 1)))" by simp
    moreover have "interval_slice xs (pos + 1) lo hi =
        interval_slice (drop (nat (lo - (pos + 1))) xs) lo lo hi"
      using lt by (intro Cons.IH) simp
    ultimately show ?thesis using lt by simp
  qed
qed

lemma interval_slice_eq:
  assumes "0 \<le> lo"
  shows "interval_slice xs 0 lo hi = take (nat (hi - lo)) (drop (nat lo) xs)"
  using interval_slice_drop [of 0 lo xs hi] interval_slice_take [of lo lo "drop (nat lo) xs" hi] assms
  by simp

lemma clamped_take:
  "take (min (a + l) (length xs) - min a (length xs)) (drop (min a (length xs)) xs) =
   take l (drop a xs)"
proof (cases "a < length xs")
  case True
  show ?thesis
  proof (cases "a + l \<le> length xs")
    case True
    with \<open>a < length xs\<close> show ?thesis by (simp add: min_def)
  next
    case False
    with \<open>a < length xs\<close> show ?thesis by (simp add: min_def)
  qed
next
  case False
  then show ?thesis by (simp add: min_def)
qed

lemma slice_interval:
  assumes "0 \<le> offset" and "0 \<le> limit" and "length xs < 2 ^ 53"
  shows "slice xs (Num offset) (round_double (offset + limit)) =
         interval_slice xs 0 offset (offset + limit)"
proof -
  from assms have stop: "relative_index (round_double (offset + limit)) (length xs) =
      min (nat offset + nat limit) (length xs)"
    using round_double_clamp [of "offset + limit" "length xs"] by (simp add: nat_add_distrib)
  from assms(1) have start: "relative_index (Num offset) (length xs) = min (nat offset) (length xs)"
    by simp
  show ?thesis
    using assms(1,2)
    by (simp add: slice_def Let_def stop start clamped_take interval_slice_eq del: relative_index.simps)
qed

lemma has_more_exact:
  assumes "0 \<le> offset" and "0 \<le> limit" and "n < 2 ^ 53"
  shows "num_less (round_double (offset + limit)) (Num (int n)) = (offset + limit < int n)"
  using assms round_double_clamp [of "offset + limit" n] by simp

lemma slice_all: "slice xs (Num 0) (Num (int (length xs))) = xs"
  by (simp add: slice_def Let_def)

text \<open>
  Claim C5 says that, for every filter set and every \<open>limit\<close> and \<open>offset\<close>, the query
  filters by exact severity match and jurisdiction membership and returns the slice
  \<open>[offset, offset+limit)\<close>. Two inputs are answered otherwise. A filter given as the empty
  string is not applied: the query \<open>severity=\<close> returns the record of the example store,
  whose severity is not the empty string. A negative \<open>offset\<close> counts from the end of the
  list: with \<open>offset=-1\<close> and \<open>limit=5\<close> the page is the last of two records, where the
  positions from -1 up to 4 hold both.
\<close>

theorem empty_filter_and_negative_offset_counterexample:
  "api_violations
     \<lparr>limit_q = Some ''50'', offset_q = Some ''0'', severity_q = Some [],
      jurisdiction_q = None\<rparr> example_store =
     Inr \<lparr>violations = [example_report], total = 1, hasMore = False\<rparr> \<and>
   spec_query (Some []) None 50 0 (fetch_violations example_store) =
     \<lparr>violations = [], total = 0, hasMore = False\<rparr> \<and>
   api_violations
     \<lparr>limit_q = Some ''5'', offset_q = Some ''-1'', severity_q = None,
      jurisdiction_q = None\<rparr> later_store =
     Inr \<lparr>violations = [example_report], total = 2, hasMore = False\<rparr> \<and>
   spec_query None None 5 (- 1) (fetch_violations later_store) =
     \<lparr>violations = [later_report, example_report], total = 2, hasMore = False\<rparr>"
proof -
  have a: "api_violations
     \<lparr>limit_q = Some ''50'', offset_q = Some ''0'', severity_q = Some [],
      jurisdiction_q = None\<rparr> example_store =
     Inr \<lparr>violations = [example_report], total = 1, hasMore = False\<rparr>"
    by (simp add: api_violations_def Let_def or_default_def truthy_def parseInt_examples
        parseInt_zero fetch_example_store slice_def round_double_small)
  have b: "spec_query (Some []) None 50 0 (fetch_violations example_store) =
     \<lparr>violations = [], total = 0, hasMore = False\<rparr>"
    by (simp add: spec_query_def spec_filter_def fetch_example_store example_report_fields)
  have c: "api_violations
     \<lparr>limit_q = Some ''5'', offset_q = Some ''-1'', severity_q = None,
      jurisdiction_q = None\<rparr> later_store =
     Inr \<lparr>violations = [example_report], total = 2, hasMore = False\<rparr>"
    by (simp add: api_violations_def Let_def or_default_def truthy_def parseInt_examples
        fetch_later_store slice_def round_double_small)
  have d: "spec_query None None 5 (- 1) (fetch_violations later_store) =
     \<lparr>violations = [later_report, example_report], total = 2, hasMore = False\<rparr>"
    by (simp add: spec_query_def spec_filter_def fetch_later_store)
  from a b c d show ?thesis by simp
qed

lemma filters_follow_specification:
  assumes "\<forall>v \<in> set fetched. v_jurisdiction (violation v) \<noteq> None"
  shows "(if truthy jur
          then filter_jurisdiction (or_default jur [])
                 (if truthy sev then filter_severity (or_default sev []) fetched else fetched)
          else Inr (if truthy sev then filter_severity (or_default sev []) fetched else fetched)) =
         Inr (spec_filter (given_filter sev) (given_filter jur) fetched)"
proof -
  have sev: "(if truthy sev then filter_severity (or_default sev []) fetched else fetched) =
      spec_filter (given_filter sev) None fetched"
    by (cases sev) (simp_all add: truthy_def or_default_def given_filter_def spec_filter_def
        filter_severity_def)
  have kept: "\<forall>v \<in> set (spec_filter g None fetched).
      v_jurisdiction (violation v) \<noteq> None" for g
    using assms by (simp add: spec_filter_def)
  have both: "filter (\<lambda>v. case v_jurisdiction (violation v) of None \<Rightarrow> False | Some js \<Rightarrow> j \<in> set js)
        (spec_filter g None fetched) =
      spec_filter g (Some j) fetched" for g j
    by (simp add: spec_filter_def conj_commute)
  show ?thesis
    unfolding sev
    by (cases jur)
       (simp_all add: truthy_def or_default_def given_filter_def
          filter_jurisdiction_eq [OF kept] both)
qed

text \<open>
  Claim C5, amended. In a store whose records have the shape of \<open>ViolationReport\<close> and
  whose index, an array, has fewer than \<open>2^32\<close> identifiers, for \<open>limit\<close> and \<open>offset\<close> that
  read as non-negative integers, the query filters the fetched records by exact severity
  match and by jurisdiction membership, where a filter given as the empty string counts
  as absent; it returns the elements at the positions from \<open>offset\<close> up to
  \<open>offset + limit\<close> of the filtered list, the length of the filtered list as total, and
  \<open>offset + limit < total\<close> as \<open>hasMore\<close>. The query with an empty filter is answered as
  the query without that filter.
\<close>

theorem query_follows_specification:
  assumes "\<forall>v \<in> ran (records s). conforms v"
    and "length (list_ids s) < 2 ^ 32"
    and "parseInt (or_default (limit_q q) ''50'') = Num limit"
    and "parseInt (or_default (offset_q q) ''0'') = Num offset"
    and "0 \<le> limit" and "0 \<le> offset"
  shows "api_violations q s =
           Inr (spec_query (given_filter (severity_q q)) (given_filter (jurisdiction_q q))
                  limit offset (fetch_violations s)) \<and>
         api_violations (q\<lparr>severity_q := Some []\<rparr>) s =
           api_violations (q\<lparr>severity_q := None\<rparr>) s \<and>
         api_violations (q\<lparr>jurisdiction_q := Some []\<rparr>) s =
           api_violations (q\<lparr>jurisdiction_q := None\<rparr>) s"
proof -
  let ?fetched = "fetch_violations s"
  let ?filtered = "spec_filter (given_filter (severity_q q)) (given_filter (jurisdiction_q q))
      ?fetched"
  have jur: "\<forall>v \<in> set ?fetched. v_jurisdiction (violation v) \<noteq> None"
    using assms(1) set_fetch_violations [of s] by (auto simp: conforms_def)
  have "length ?filtered \<le> length ?fetched"
    by (simp add: spec_filter_def)
  also have "\<dots> \<le> length (list_ids s)"
    by (simp add: length_fetch_violations)
  also have "\<dots> < 2 ^ 53"
    using assms(2) by simp
  finally have small: "length ?filtered < 2 ^ 53" .
  have main: "api_violations q s =
      Inr (spec_query (given_filter (severity_q q)) (given_filter (jurisdiction_q q))
             limit offset ?fetched)"
    using assms(5,6) small
    by (simp add: api_violations_def Let_def assms(3,4) filters_follow_specification [OF jur]
        spec_query_def slice_interval has_more_exact)
  have sev: "api_violations (q\<lparr>severity_q := Some []\<rparr>) s =
      api_violations (q\<lparr>severity_q := None\<rparr>) s"
    by (simp add: api_violations_def Let_def truthy_def)
  have jurisdiction: "api_violations (q\<lparr>jurisdiction_q := Some []\<rparr>) s =
      api_violations (q\<lparr>jurisdiction_q := None\<rparr>) s"
    by (simp add: api_violations_def Let_def truthy_def)
  from main sev jurisdiction show ?thesis by simp
qed

text \<open>The theorem at the store of the two example records, with the jurisdiction filter
  \<open>INTERNATIONAL\<close>, an empty severity filter, \<open>limit=1\<close> and no \<open>offset\<close>.\<close>

theorem query_follows_specification_witness:
  "length (list_ids later_store) < 2 ^ 32 \<and>
   api_violations
     \<lparr>limit_q = Some ''1'', offset_q = None, severity_q = Some [],
      jurisdiction_q = Some ''INTERNATIONAL''\<rparr> later_store =
   Inr \<lparr>violations = [later_report], total = 2, hasMore = True\<rparr>"
proof -
  have len: "length (list_ids later_store) < 2 ^ 32"
    by (simp add: later_store_eq list_ids_def)
  have limit: "parseInt (or_default (limit_q
        \<lparr>limit_q = Some ''1'', offset_q = None, severity_q = Some [],
         jurisdiction_q = Some ''INTERNATIONAL''\<rparr>) ''50'') = Num 1"
    by (simp add: or_default_def parseInt_examples)
  have offset: "parseInt (or_default (offset_q
        \<lparr>limit_q = Some ''1'', offset_q = None, severity_q = Some [],
         jurisdiction_q = Some ''INTERNATIONAL''\<rparr>) ''0'') = Num 0"
    by (simp add: or_default_def parseInt_zero)
  have one: "(0::int) \<le> 1" and zero: "(0::int) \<le> 0"
    by simp_all
  from query_follows_specification [OF later_store_conforms len limit offset one zero] len
  show ?thesis
    by (simp add: given_filter_def spec_query_def spec_filter_def fetch_later_store
        example_report_fields later_report_fields)
qed

section \<open>The index after a sequence of submissions\<close>

lemma submit_all_shape:
  "submit_all reqs s0 = Some (vs, s) \<Longrightarrow>
   map report_id vs = map (\<lambda>r. random_id (fst r)) reqs \<and>
   list_ids s = rev (map report_id vs) @ list_ids s0 \<and>
   records s = fold (\<lambda>v m. m(report_id v \<mapsto> v)) vs (records s0)"
proof (induction reqs arbitrary: s0 vs)
  case Nil
  then show ?case by simp
next
  case (Cons r rest)
  obtain e body where r: "r = (e, body)" by (cases r)
  from Cons.prems r obtain v info s1 vs' where
    sub: "submit e body s0 = Inr (v, info, s1)" and
    rest: "submit_all rest s1 = Some (vs', s)" and
    vs: "vs = v # vs'"
    by (auto split: sum.splits option.splits)
  from submit_Inr [OF sub] have s1: "s1 = store_violation v s0" and id: "report_id v = random_id e"
    by simp_all
  from Cons.IH [OF rest] s1 id vs r show ?case
    by (simp add: list_ids_store_violation records_store_violation)
qed

lemma fold_update_other:
  "k \<notin> report_id ` set vs \<Longrightarrow> fold (\<lambda>v m. m(report_id v \<mapsto> v)) vs m k = m k"
  by (induction vs arbitrary: m) auto

lemma fold_update_member:
  "distinct (map report_id vs) \<Longrightarrow> v \<in> set vs \<Longrightarrow>
   fold (\<lambda>v m. m(report_id v \<mapsto> v)) vs m (report_id v) = Some v"
  by (induction vs arbitrary: m) (auto simp: fold_update_other)

lemma map_filter_all:
  "\<forall>v \<in> set ws. m (report_id v) = Some v \<Longrightarrow> List.map_filter m (map report_id ws) = ws"
  by (induction ws) (auto simp: List.map_filter_simps)

lemma repeat_report_fields:
  "report_id repeat_report = ''k3x9''"
  "timestamp repeat_report = 3000"
  by (simp_all add: repeat_report_def repeat_env_def new_violation_def)

lemma repeat_submit:
  "submit repeat_env later_request example_store =
     Inr (repeat_report, getStatuteInfo ''INFCIRC/540'', repeat_store)"
  using submit_valid [OF infcirc540, of "''OtherAI''" "''y''" repeat_env example_store]
  by (simp add: later_request_def repeat_report_def repeat_store_def
      getStatuteInfo_own [OF infcirc540])

lemma repeat_store_eq:
  "repeat_store =
     \<lparr>records = [''k3x9'' \<mapsto> repeat_report], violation_list = Some [''k3x9'', ''k3x9'']\<rparr>"
  by (simp add: repeat_store_def store_violation_def Let_def repeat_report_fields
      example_store_eq list_ids_def)

text \<open>
  Claim C4 says that after \<open>N\<close> accepted submissions into the empty store the query with
  \<open>limit\<close> \<open>N\<close> returns the \<open>N\<close> records most recent first. The identifier of a record is
  drawn at random and not compared with those in the store. When the second of two
  submissions draws the identifier of the first, its record replaces the first under
  that identifier, the index names the identifier twice, and the query returns the
  second record twice and the first not at all.
\<close>

theorem repeated_id_counterexample:
  "submit_all [(example_env, example_request), (repeat_env, later_request)] empty_kv =
     Some ([example_report, repeat_report], repeat_store) \<and>
   api_violations
     \<lparr>limit_q = Some ''2'', offset_q = Some ''0'', severity_q = None, jurisdiction_q = None\<rparr>
     repeat_store =
     Inr \<lparr>violations = [repeat_report, repeat_report], total = 2, hasMore = False\<rparr> \<and>
   [repeat_report, repeat_report] \<noteq> rev [example_report, repeat_report]"
proof -
  have run: "submit_all [(example_env, example_request), (repeat_env, later_request)] empty_kv =
     Some ([example_report, repeat_report], repeat_store)"
    by (simp add: example_submit repeat_submit)
  have fetched: "fetch_violations repeat_store = [repeat_report, repeat_report]"
    by (simp add: repeat_store_eq fetch_violations_def list_ids_def)
  have answer: "api_violations
     \<lparr>limit_q = Some ''2'', offset_q = Some ''0'', severity_q = None, jurisdiction_q = None\<rparr>
     repeat_store =
     Inr \<lparr>violations = [repeat_report, repeat_report], total = 2, hasMore = False\<rparr>"
    by (simp add: api_violations_def Let_def or_default_def truthy_def parseInt_examples
        parseInt_zero fetched slice_def round_double_small)
  have "timestamp example_report \<noteq> timestamp repeat_report"
    by (simp add: example_report_fields repeat_report_fields)
  then have differ: "[repeat_report, repeat_report] \<noteq> rev [example_report, repeat_report]"
    by auto
  from run answer differ show ?thesis by simp
qed

text \<open>
  Claim C4, amended. An accepted submission puts the identifier of its record in front
  of the index. After \<open>N\<close> accepted submissions into the empty store, with identifiers
  that differ from one another, the index lists the identifiers most recent first, and
  the query with no filter, \<open>limit\<close> \<open>N\<close> and \<open>offset\<close> 0 returns the \<open>N\<close> records most recent
  first, with total \<open>N\<close> and \<open>hasMore\<close> false.
\<close>

theorem submissions_are_listed_most_recent_first:
  "(submit e body s0 = Inr (v, info, s1) \<longrightarrow> list_ids s1 = report_id v # list_ids s0) \<and>
   (submit_all reqs empty_kv = Some (vs, s) \<and> distinct (map (\<lambda>r. random_id (fst r)) reqs) \<and>
    parseInt lim = Num (int (length reqs)) \<longrightarrow>
      length vs = length reqs \<and>
      list_ids s = rev (map report_id vs) \<and>
      api_violations
        \<lparr>limit_q = Some lim, offset_q = Some ''0'', severity_q = None, jurisdiction_q = None\<rparr> s =
        Inr \<lparr>violations = rev vs, total = length reqs, hasMore = False\<rparr>)"
proof (intro conjI impI)
  assume "submit e body s0 = Inr (v, info, s1)"
  from submit_Inr [OF this] show "list_ids s1 = report_id v # list_ids s0"
    by (simp add: list_ids_store_violation)
next
  assume run: "submit_all reqs empty_kv = Some (vs, s) \<and>
    distinct (map (\<lambda>r. random_id (fst r)) reqs) \<and> parseInt lim = Num (int (length reqs))"
  from run submit_all_shape [of reqs empty_kv vs s] have
    ids: "map report_id vs = map (\<lambda>r. random_id (fst r)) reqs" and
    index: "list_ids s = rev (map report_id vs)" and
    recs: "records s = fold (\<lambda>v m. m(report_id v \<mapsto> v)) vs Map.empty"
    by (simp_all add: list_ids_def empty_kv_def)
  from ids have len: "length vs = length reqs"
    by (metis length_map)
  from run ids have dist: "distinct (map report_id vs)" by simp
  have "\<forall>v \<in> set (rev vs). records s (report_id v) = Some v"
    using fold_update_member [OF dist] recs by simp
  then have fetched: "fetch_violations s = rev vs"
    using map_filter_all [of "rev vs" "records s"]
    by (simp add: fetch_violations_eq index rev_map)
  from run have lim: "lim \<noteq> []"
    by (auto simp: parseInt_empty)
  from run have sum: "round_double (int (length reqs)) = Num (int (length reqs))"
    by (intro parseInt_idem [of lim]) simp
  show "length vs = length reqs" by (rule len)
  show "list_ids s = rev (map report_id vs)" by (rule index)
  have "slice (rev vs) (Num 0) (Num (int (length reqs))) = rev vs"
    using slice_all [of "rev vs"] len by simp
  with run lim len sum show "api_violations
        \<lparr>limit_q = Some lim, offset_q = Some ''0'', severity_q = None, jurisdiction_q = None\<rparr> s =
        Inr \<lparr>violations = rev vs, total = length reqs, hasMore = False\<rparr>"
    by (simp add: api_violations_def Let_def or_default_def truthy_def parseInt_zero fetched)
qed

theorem submissions_are_listed_most_recent_first_witness:
  "submit_all [(example_env, example_request), (later_env, later_request)] empty_kv =
     Some ([example_report, later_report], later_store) \<and>
   list_ids later_store = [''p07q'', ''k3x9''] \<and>
   api_violations
     \<lparr>limit_q = Some ''2'', offset_q = Some ''0'', severity_q = None, jurisdiction_q = None\<rparr>
     later_store =
     Inr \<lparr>violations = [later_report, example_report], total = 2, hasMore = False\<rparr>"
proof -
  have run: "submit_all [(example_env, example_request), (later_env, later_request)] empty_kv =
     Some ([example_report, later_report], later_store)"
    by (simp add: example_submit later_submit)
  have dist: "distinct (map (\<lambda>r. random_id (fst r))
      [(example_env, example_request), (later_env, later_request)])"
    by (simp add: example_env_def later_env_def)
  have lim: "parseInt ''2'' =
      Num (int (length [(example_env, example_request), (later_env, later_request)]))"
    by (simp add: parseInt_examples)
  from submissions_are_listed_most_recent_first
      [THEN conjunct2, THEN mp, OF conjI [OF run conjI [OF dist lim]]]
  show ?thesis
    using run by (simp add: example_report_fields later_report_fields)
qed


section \<open>Statistics\<close>

text \<open>
  Claim C2 says that \<open>byOrganization\<close> counts the records of each responsible
  organization. After one accepted report by an organization named \<open>constructor\<close> the
  tally under that name is not the count 1 but a text: the accumulator inherits a member
  of that name, and adding 1 to it concatenates. This is so in the answer of
  \<open>GET /api/stats\<close>, which calls the field \<open>byAiTool\<close>, and in the statistics of the tool
  \<open>get_violation_stats\<close>.
\<close>

theorem organization_named_constructor_is_not_counted:
  "\<exists>v s st ts.
     submit e \<lparr>req_statute = Some ''Rome Statute Article 7'',
               responsible_organization = Some ''constructor'',
               offending_content = Some ''x''\<rparr> empty_kv =
       Inr (v, getStatuteInfo ''Rome Statute Article 7'', s) \<and>
     conforms v \<and>
     api_stats now s = Inr st \<and> stats_total st = 1 \<and>
     bySeverity st ''CRITICAL'' = Some (Count 1) \<and>
     byAiTool st ''constructor'' = Some (Text ''function Object() { [native code] }1'') \<and>
     tools_call e now i
       (Some \<lparr>protocolVersion = None, tool_name = Some ''get_violation_stats'',
              arguments = None\<rparr>) s =
       ((200, Json (Result i (Content (Statistics ts)))), s) \<and>
     byOrganization ts ''constructor'' = Some (Text ''function Object() { [native code] }1'')"
proof -
  let ?v = "new_violation e ''Rome Statute Article 7'' ''constructor'' ''x''
              (getStatuteInfo ''Rome Statute Article 7'')"
  let ?s = "store_violation ?v empty_kv"
  let ?ts = "\<lparr>tool_total = 1,
              tool_bySeverity = increment Map.empty ''CRITICAL'',
              byOrganization = increment Map.empty ''constructor'',
              tool_recent24h = count_recent now [?v]\<rparr>"
  have sub: "submit e \<lparr>req_statute = Some ''Rome Statute Article 7'',
               responsible_organization = Some ''constructor'',
               offending_content = Some ''x''\<rparr> empty_kv =
       Inr (?v, getStatuteInfo ''Rome Statute Article 7'', ?s)"
    using submit_valid [OF rome7, of "''constructor''" "''x''" e empty_kv]
    by (simp add: getStatuteInfo_own [OF rome7])
  have conf: "conforms ?v"
    by (simp add: conforms_def new_violation_def field_def getStatuteInfo_own [OF rome7])
  have jur: "v_jurisdiction (violation ?v) = Some [''INTERNATIONAL'', ''ICC'']"
    by (simp add: new_violation_def field_def getStatuteInfo_own [OF rome7])
  have sev: "severity_key ?v = ''CRITICAL''"
    by (simp add: severity_key_def new_violation_def field_def getStatuteInfo_own [OF rome7])
  have org: "responsibleOrganization ?v = ''constructor''"
    by (simp add: new_violation_def)
  have stats: "api_stats now ?s =
      Inr \<lparr>stats_total = 1,
           bySeverity = increment Map.empty ''CRITICAL'',
           byJurisdiction = foldl increment Map.empty [''INTERNATIONAL'', ''ICC''],
           byAiTool = increment Map.empty ''constructor'',
           recent24h = count_recent now [?v]\<rparr>"
    by (simp add: api_stats_def fetch_first_submission jur count_severity_def sev
        count_organization_def org)
  have tool: "tools_call e now i
       (Some \<lparr>protocolVersion = None, tool_name = Some ''get_violation_stats'',
              arguments = None\<rparr>) ?s =
       ((200, Json (Result i (Content (Statistics ?ts)))), ?s)"
    by (simp add: tools_call_def truthy_def fetch_first_submission count_severity_def sev
        count_organization_def org)
  have b1: "increment Map.empty ''CRITICAL'' ''CRITICAL'' = Some (Count 1)"
    by (simp add: increment_def js_get_def Object_prototype_keys_def)
  have b2: "increment Map.empty ''constructor'' ''constructor'' =
      Some (Text ''function Object() { [native code] }1'')"
    by (simp add: increment_def js_get_def Object_prototype_keys_def member_text_def)
  have "byOrganization ?ts ''constructor'' = Some (Text ''function Object() { [native code] }1'')"
    using b2 by simp
  with sub conf stats tool b1 b2 show ?thesis
    by (intro exI [of _ ?v] exI [of _ ?s] exI [of _ ?ts]
        exI [of _ "\<lparr>stats_total = 1,
           bySeverity = increment Map.empty ''CRITICAL'',
           byJurisdiction = foldl increment Map.empty [''INTERNATIONAL'', ''ICC''],
           byAiTool = increment Map.empty ''constructor'',
           recent24h = count_recent now [?v]\<rparr>"]) simp
qed

text \<open>The theorem at the example environment.\<close>

theorem organization_named_constructor_is_not_counted_witness:
  "\<exists>v s st ts.
     submit example_env \<lparr>req_statute = Some ''Rome Statute Article 7'',
               responsible_organization = Some ''constructor'',
               offending_content = Some ''x''\<rparr> empty_kv =
       Inr (v, getStatuteInfo ''Rome Statute Article 7'', s) \<and>
     conforms v \<and>
     api_stats 5000 s = Inr st \<and> stats_total st = 1 \<and>
     bySeverity st ''CRITICAL'' = Some (Count 1) \<and>
     byAiTool st ''constructor'' = Some (Text ''function Object() { [native code] }1'') \<and>
     tools_call example_env 5000 (IdNumber 1)
       (Some \<lparr>protocolVersion = None, tool_name = Some ''get_violation_stats'',
              arguments = None\<rparr>) s =
       ((200, Json (Result (IdNumber 1) (Content (Statistics ts)))), s) \<and>
     byOrganization ts ''constructor'' = Some (Text ''function Object() { [native code] }1'')"
  by (rule organization_named_constructor_is_not_counted)

text \<open>Under every name that \<open>Object.prototype\<close> does not define, the tallies are the
  counts: of the records of that severity, of the jurisdiction entries of that name over
  all records, and of the records of that organization; \<open>recent24h\<close> is the number of
  records stamped after \<open>now\<close> minus 24 hours, and the total the number of fetched
  records.\<close>

lemma increment_other: "k \<noteq> k' \<Longrightarrow> increment acc k' k = acc k"
  by (simp add: increment_def Let_def)

lemma increment_same:
  assumes "k \<notin> set Object_prototype_keys" and "acc k = tally_of n"
  shows "increment acc k k = tally_of (Suc n)"
proof -
  from assms(1) have "k \<noteq> ''__proto__''"
    by (auto simp: Object_prototype_keys_def)
  with assms show ?thesis
    by (cases n) (simp_all add: increment_def js_get_def)
qed

lemma foldl_increment:
  assumes "k \<notin> set Object_prototype_keys"
  shows "acc k = tally_of n \<Longrightarrow>
         foldl (\<lambda>a x. increment a (f x)) acc xs k = tally_of (n + length (filter (\<lambda>x. f x = k) xs))"
proof (induction xs arbitrary: acc n)
  case Nil
  then show ?case by simp
next
  case (Cons x xs)
  show ?case
  proof (cases "f x = k")
    case True
    with Cons.prems have "increment acc (f x) k = tally_of (Suc n)"
      using increment_same [OF assms] by simp
    from Cons.IH [of "increment acc (f x)" "Suc n", OF this] True show ?thesis by simp
  next
    case False
    with Cons.prems have "increment acc (f x) k = tally_of n"
      by (simp add: increment_other)
    from Cons.IH [of "increment acc (f x)" n, OF this] False show ?thesis by simp
  qed
qed

lemma count_jurisdiction_eq:
  "\<forall>v \<in> set vs. v_jurisdiction (violation v) \<noteq> None \<Longrightarrow>
   count_jurisdiction acc vs = Inr (foldl increment acc (jurisdiction_entries vs))"
  by (induction vs arbitrary: acc) (auto simp: jurisdiction_entries_def)

lemma stats_count_records:
  assumes "\<forall>v \<in> ran (records s). conforms v" and "k \<notin> set Object_prototype_keys"
  shows "\<exists>st. api_stats now s = Inr st \<and>
           stats_total st = length (fetch_violations s) \<and>
           bySeverity st k =
             tally_of (length (filter (\<lambda>v. severity_key v = k) (fetch_violations s))) \<and>
           byJurisdiction st k =
             tally_of (length (filter (\<lambda>j. j = k) (jurisdiction_entries (fetch_violations s)))) \<and>
           byAiTool st k =
             tally_of (length (filter (\<lambda>v. responsibleOrganization v = k) (fetch_violations s))) \<and>
           recent24h st =
             length (filter (\<lambda>v. now - 86400000 < timestamp v) (fetch_violations s))"
proof -
  have jur: "\<forall>v \<in> set (fetch_violations s). v_jurisdiction (violation v) \<noteq> None"
    using assms(1) set_fetch_violations [of s] by (auto simp: conforms_def)
  have start: "(Map.empty :: string \<rightharpoonup> tally) k = tally_of 0" by simp
  show ?thesis
    using foldl_increment [OF assms(2), of Map.empty 0 severity_key "fetch_violations s"]
      foldl_increment [OF assms(2), of Map.empty 0 "\<lambda>j. j"
        "jurisdiction_entries (fetch_violations s)"]
      foldl_increment [OF assms(2), of Map.empty 0 responsibleOrganization "fetch_violations s"]
    by (simp add: api_stats_def count_jurisdiction_eq [OF jur] count_severity_def
        count_organization_def count_recent_def Let_def)
qed

end
